theory Spec2Isabelle
  imports Main "HOL-Library.Word" "HOL-Library.Sublist" "HOL-Library.Multiset"
    "HOL-Library.Char_ord" "HOL-Library.List_Lexorder"
begin

unbundle bit_operations_syntax

section \<open>The build command of dbt\<close>

text \<open>
  The repository holds two revisions of the file \<^verbatim>\<open>cmd/build.go\<close>. The later one (it pins
  dbt v0.1.8, and has \<^verbatim>\<open>prepareGenerator\<close>, \<^verbatim>\<open>normalizeTarget\<close> and the generator
  modes) is embedded under the names of its functions. The earlier one (dbt v0.1.1) is
  embedded under the same names with the suffix \<^verbatim>\<open>_v1\<close>. Go strings are byte strings,
  so they are \<^typ>\<open>string\<close>; \<^verbatim>\<open>os.PathSeparator\<close> is the slash.

  The functions of the packages \<^verbatim>\<open>util\<close>, \<^verbatim>\<open>module\<close> and \<^verbatim>\<open>log\<close>, the file system,
  the Go parser and the child processes are the environment of the command: they are the
  fields of the record \<open>env\<close>. Writing and removing files, debug logging and the echo of a
  child's standard error leave no trace in the model; so \<^verbatim>\<open>createModFileContent\<close> and
  \<^verbatim>\<open>createGeneratorMainFile\<close>, which only compose and write files, have no counterpart.
\<close>

subsection \<open>Package strings\<close>

definition strings_HasPrefix :: "string \<Rightarrow> string \<Rightarrow> bool" where
  "strings_HasPrefix s p = prefix p s"

definition strings_HasSuffix :: "string \<Rightarrow> string \<Rightarrow> bool" where
  "strings_HasSuffix s x = suffix x s"

definition strings_TrimPrefix :: "string \<Rightarrow> string \<Rightarrow> string" where
  "strings_TrimPrefix s p = (if strings_HasPrefix s p then drop (length p) s else s)"

definition strings_TrimSuffix :: "string \<Rightarrow> string \<Rightarrow> string" where
  "strings_TrimSuffix s x =
     (if strings_HasSuffix s x then take (length s - length x) s else s)"

definition strings_TrimLeft :: "string \<Rightarrow> string \<Rightarrow> string" where
  "strings_TrimLeft s cutset = dropWhile (\<lambda>c. c \<in> set cutset) s"

definition strings_Contains :: "string \<Rightarrow> string \<Rightarrow> bool" where
  "strings_Contains s substr = sublist substr s"

text \<open>\<^verbatim>\<open>strings.Split\<close> for a separator of one byte, the only use the command makes of it.
  The result is never empty: splitting the empty string gives one empty string.\<close>

fun strings_Split :: "string \<Rightarrow> char \<Rightarrow> string list" where
  "strings_Split [] sep = [[]]"
| "strings_Split (c # cs) sep =
     (if c = sep then [] # strings_Split cs sep
      else (case strings_Split cs sep of
              [] \<Rightarrow> [[c]]
            | x # xs \<Rightarrow> (c # x) # xs))"

fun strings_Join :: "string list \<Rightarrow> string \<Rightarrow> string" where
  "strings_Join [] sep = []"
| "strings_Join [x] sep = x"
| "strings_Join (x # y # ys) sep = x @ sep @ strings_Join (y # ys) sep"

subsection \<open>Package path\<close>

text \<open>\<^verbatim>\<open>path.Clean\<close> reads the path one element at a time (the elements are what lies
  between slashes) and keeps the output buffer and the index \<open>dotdot\<close> below which a
  \<^verbatim>\<open>..\<close> may not backtrack. \<open>scanBack\<close> is the inner loop that moves the write index back
  to the previous slash.\<close>

fun scanBack :: "string \<Rightarrow> nat \<Rightarrow> nat \<Rightarrow> nat" where
  "scanBack out dotdot 0 = 0"
| "scanBack out dotdot (Suc w) =
     (if Suc w > dotdot \<and> out ! Suc w \<noteq> CHR ''/'' then scanBack out dotdot w else Suc w)"

definition cleanElem :: "bool \<Rightarrow> string \<times> nat \<Rightarrow> string \<Rightarrow> string \<times> nat" where
  "cleanElem rooted st el =
     (case st of (out, dotdot) \<Rightarrow>
        if el = [] then (out, dotdot)
        else if el = ''.'' then (out, dotdot)
        else if el = ''..'' then
          (if length out > dotdot
             then (take (scanBack out dotdot (length out - 1)) out, dotdot)
           else if \<not> rooted
             then (let out' = (if length out > 0 then out @ ''/'' else out) @ ''..''
                   in (out', length out'))
           else (out, dotdot))
        else ((if rooted \<and> length out \<noteq> 1 \<or> \<not> rooted \<and> length out \<noteq> 0
               then out @ ''/'' else out) @ el, dotdot))"

definition path_Clean :: "string \<Rightarrow> string" where
  "path_Clean p =
     (if p = [] then ''.''
      else
        (let rooted = (hd p = CHR ''/'');
             st = foldl (cleanElem rooted)
                    (if rooted then (''/'', 1) else ([], 0))
                    (strings_Split (if rooted then tl p else p) CHR ''/'');
             out = fst st
         in if out = [] then ''.'' else out))"

definition path_Join :: "string list \<Rightarrow> string" where
  "path_Join elem =
     (case dropWhile (\<lambda>e. e = []) elem of
        [] \<Rightarrow> []
      | e # es \<Rightarrow> path_Clean (strings_Join (e # es) ''/''))"

definition path_Dir :: "string \<Rightarrow> string" where
  "path_Dir p = path_Clean (rev (dropWhile (\<lambda>c. c \<noteq> CHR ''/'') (rev p)))"

subsection \<open>Packages sort, hash/crc32 and fmt\<close>

definition sort_Strings :: "string list \<Rightarrow> string list" where
  "sort_Strings xs = sort xs"

definition IEEE :: "32 word" where
  "IEEE = 0xedb88320"

definition simpleMakeTable :: "32 word \<Rightarrow> 8 word \<Rightarrow> 32 word" where
  "simpleMakeTable poly i =
     ((\<lambda>crc. if crc AND 1 = 1 then drop_bit 1 crc XOR poly else drop_bit 1 crc) ^^ 8)
       (ucast i)"

definition crcByte :: "(8 word \<Rightarrow> 32 word) \<Rightarrow> 32 word \<Rightarrow> char \<Rightarrow> 32 word" where
  "crcByte tab crc v = tab (ucast crc XOR of_nat (of_char v)) XOR drop_bit 8 crc"

definition simpleUpdate :: "32 word \<Rightarrow> (8 word \<Rightarrow> 32 word) \<Rightarrow> string \<Rightarrow> 32 word" where
  "simpleUpdate crc tab p = NOT (fold (\<lambda>v c. crcByte tab c v) p (NOT crc))"

definition ChecksumIEEE :: "string \<Rightarrow> 32 word" where
  "ChecksumIEEE data = simpleUpdate 0 (simpleMakeTable IEEE) data"

definition upperhex :: "nat \<Rightarrow> char" where
  "upperhex n = ''0123456789ABCDEF'' ! n"

text \<open>The verb \<^verbatim>\<open>%08X\<close> on a \<^verbatim>\<open>uint32\<close>: eight upper-case hexadecimal digits.\<close>

definition fmt_08X :: "32 word \<Rightarrow> string" where
  "fmt_08X w =
     map (\<lambda>i. upperhex (unat (drop_bit (4 * i) w AND 0xF))) [7, 6, 5, 4, 3, 2, 1, 0]"

subsection \<open>Constants, errors, effects and the environment\<close>

definition buildDirName :: string where "buildDirName = ''BUILD''"
definition buildFileName :: string where "buildFileName = ''BUILD.go''"
definition buildFilesDirName :: string where "buildFilesDirName = ''buildfiles''"
definition mainFileName :: string where "mainFileName = ''main.go''"
definition outputDirName :: string where "outputDirName = ''output''"
definition RulesDirName :: string where "RulesDirName = ''RULES''"

text \<open>Every call of \<^verbatim>\<open>log.Fatal\<close> in the two files, and the refusal of cobra's
  \<^verbatim>\<open>MinimumNArgs(1)\<close>.\<close>

datatype error =
    ParseFailed string string
  | InvalidDeclarations string
  | AnonymousTargets string
  | SearchFailed string string
  | CopyRulesFailed string string
  | GeneratorFailed string string
  | TargetDoesNotExist string
  | NoTargetMatching string
  | FlagDoesNotExist string
  | NinjaFailed string
  | NinjaFileFailed
  | BuildFailed
  | TooFewArgs

text \<open>What an invocation does that can be seen from outside: the child processes it runs
  (\<open>Exec dir name args\<close>) and what it prints on standard output.\<close>

datatype event = Exec string string "string list" | Print string

type_synonym 'a action = "event list \<times> (error + 'a)"

definition ret :: "'a \<Rightarrow> 'a action" where
  "ret v = ([], Inr v)"

definition log_Fatal :: "error \<Rightarrow> 'a action" where
  "log_Fatal e = ([], Inl e)"

definition lift :: "error + 'a \<Rightarrow> 'a action" where
  "lift r = ([], r)"

definition andThen :: "'a action \<Rightarrow> ('a \<Rightarrow> 'b action) \<Rightarrow> 'b action" where
  "andThen m f =
     (case m of
        (t, Inl e) \<Rightarrow> (t, Inl e)
      | (t, Inr v) \<Rightarrow> (case f v of (t', r) \<Rightarrow> (t @ t', r)))"

definition fmt_Print :: "string list \<Rightarrow> unit action" where
  "fmt_Print ls = (map Print ls, Inr ())"

text \<open>The syntax tree \<^verbatim>\<open>go/parser\<close> returns, as far as \<^verbatim>\<open>parseBuildFile\<close> looks at it.\<close>

datatype token = token_IMPORT | token_CONST | token_TYPE | token_VAR

fun token_String :: "token \<Rightarrow> string" where
  "token_String token_IMPORT = ''import''"
| "token_String token_CONST = ''const''"
| "token_String token_TYPE = ''type''"
| "token_String token_VAR = ''var''"

datatype spec = ImportSpec string | ValueSpec "string list" | TypeSpec string

datatype decl = GenDecl token "spec list" | FuncDecl string | BadDecl

datatype ast_File = File (Name: string) (Decls: "decl list")

record env =
  GetWorkspaceRoot :: string
  GetWorkingDir :: string
  DepsDirName :: string
  GetModuleRootForPath :: "string \<Rightarrow> string"
  GetAllModulePaths :: "string \<Rightarrow> (string \<times> string) list"
  WalkSymlink :: "string \<Rightarrow> string + string list"
  DirExists :: "string \<Rightarrow> bool"
  Walk :: "string \<Rightarrow> string option"
  ParseFile :: "string \<Rightarrow> string + ast_File"
  Run :: "string \<Rightarrow> string \<Rightarrow> string list \<Rightarrow> string + string"
  rangeOrder :: "string set \<Rightarrow> string list"
  Verbose :: bool

text \<open>
  \<open>GetAllModulePaths\<close> lists the module map in the order the \<^verbatim>\<open>range\<close> loop visits it.
  \<open>WalkSymlink\<close> is the walk of a module with the callback of \<^verbatim>\<open>copyBuildAndRuleFiles\<close>:
  its error, or the files named \<^verbatim>\<open>BUILD.go\<close> that the callback collects. \<open>Walk\<close> is the
  error, if any, of copying the rule files of a module. \<open>ParseFile\<close> is
  \<^verbatim>\<open>parser.ParseFile\<close>. \<open>Run\<close> is \<^verbatim>\<open>cmd.Run\<close> of a child started in a directory: its
  error, or what it wrote to standard output. \<open>rangeOrder\<close> is the order in which a
  \<^verbatim>\<open>range\<close> loop visits the keys of a \<^verbatim>\<open>map[string]struct{}\<close>.
\<close>

definition exec_Run :: "env \<Rightarrow> string \<Rightarrow> string \<Rightarrow> string list \<Rightarrow> (string + string) action" where
  "exec_Run env dir name args = ([Exec dir name args], Inr (Run env dir name args))"

fun is_ninja :: "event \<Rightarrow> bool" where
  "is_ninja (Exec dir name args) = (name = ''ninja'')"
| "is_ninja (Print s) = False"

definition ninja_invoked :: "'a action \<Rightarrow> bool" where
  "ninja_invoked a = (filter is_ninja (fst a) \<noteq> [])"

definition is_fatal :: "'a action \<Rightarrow> bool" where
  "is_fatal a = (case snd a of Inl e \<Rightarrow> True | Inr v \<Rightarrow> False)"

subsection \<open>The configuration name\<close>

text \<open>Lines 252 to 254 of \<^verbatim>\<open>prepareGenerator\<close> (131 to 134 of the earlier \<^verbatim>\<open>runBuild\<close>):
  the flags are sorted, joined with \<^verbatim>\<open>#\<close> and hashed.\<close>

definition buildConfigName :: "string list \<Rightarrow> string" where
  "buildConfigName buildFlags =
     buildDirName @ ''-'' @ fmt_08X (ChecksumIEEE (strings_Join (sort_Strings buildFlags) ''#''))"

subsection \<open>Normalising a target\<close>

definition normalizeTarget :: "env \<Rightarrow> string \<Rightarrow> string" where
  "normalizeTarget env target =
     (if strings_HasPrefix target ''//'' then strings_TrimLeft target ''/''
      else
        (let endsWithSlash = (strings_HasSuffix target ''/'' \<or> target = []);
             target1 = path_Join [GetWorkingDir env, target];
             moduleRoot = GetModuleRootForPath env target1;
             target2 = strings_TrimPrefix target1 (path_Dir moduleRoot);
             target3 = (if endsWithSlash then target2 @ ''/'' else target2)
         in strings_TrimLeft target3 ''/''))"

text \<open>The earlier \<^verbatim>\<open>runBuild\<close> normalises in its loop (lines 122 to 128).\<close>

definition normalizeTarget_v1 :: "env \<Rightarrow> string \<Rightarrow> string" where
  "normalizeTarget_v1 env arg =
     (let arg' =
        (if \<not> strings_HasPrefix arg ''//''
         then (let arg1 = path_Join [GetWorkingDir env, arg];
                   moduleRoot = GetModuleRootForPath env arg1
               in strings_TrimPrefix arg1 (path_Dir moduleRoot))
         else arg)
      in strings_TrimLeft arg' ''/'')"

subsection \<open>Parsing a definition file\<close>

fun parseNames :: "string \<Rightarrow> string list \<Rightarrow> string list \<Rightarrow> error + string list" where
  "parseNames buildFilePath [] targets = Inr targets"
| "parseNames buildFilePath (name # names) targets =
     (if name = ''_'' then Inl (AnonymousTargets buildFilePath)
      else parseNames buildFilePath names (targets @ [name]))"

fun parseSpecs :: "string \<Rightarrow> token \<Rightarrow> spec list \<Rightarrow> string list \<Rightarrow> error + string list" where
  "parseSpecs buildFilePath tok [] targets = Inr targets"
| "parseSpecs buildFilePath tok (ImportSpec p # specs) targets =
     parseSpecs buildFilePath tok specs targets"
| "parseSpecs buildFilePath tok (ValueSpec names # specs) targets =
     (if token_String tok \<noteq> ''var'' then Inl (InvalidDeclarations buildFilePath)
      else (case parseNames buildFilePath names targets of
              Inl e \<Rightarrow> Inl e
            | Inr targets' \<Rightarrow> parseSpecs buildFilePath tok specs targets'))"
| "parseSpecs buildFilePath tok (TypeSpec n # specs) targets =
     Inl (InvalidDeclarations buildFilePath)"

fun parseDecls :: "string \<Rightarrow> decl list \<Rightarrow> string list \<Rightarrow> error + string list" where
  "parseDecls buildFilePath [] targets = Inr targets"
| "parseDecls buildFilePath (GenDecl tok specs # decls) targets =
     (case parseSpecs buildFilePath tok specs targets of
        Inl e \<Rightarrow> Inl e
      | Inr targets' \<Rightarrow> parseDecls buildFilePath decls targets')"
| "parseDecls buildFilePath (d # decls) targets = Inl (InvalidDeclarations buildFilePath)"

definition parseBuildFile :: "env \<Rightarrow> string \<Rightarrow> error + string \<times> string list" where
  "parseBuildFile env buildFilePath =
     (case ParseFile env buildFilePath of
        Inl err \<Rightarrow> Inl (ParseFailed buildFilePath err)
      | Inr fileAst \<Rightarrow>
          (case parseDecls buildFilePath (Decls fileAst) [] of
             Inl e \<Rightarrow> Inl e
           | Inr targets \<Rightarrow> Inr (Name fileAst, targets)))"

subsection \<open>Staging the definition files\<close>

text \<open>The loop over the collected files (lines 315 to 332): the package of the file is
  recorded and the file is parsed; a file that \<^verbatim>\<open>parseBuildFile\<close> refuses ends the
  invocation.\<close>

fun stageBuildFiles ::
  "env \<Rightarrow> string \<Rightarrow> string \<Rightarrow> string list \<Rightarrow> string list \<Rightarrow> error + string list" where
  "stageBuildFiles env moduleName modulePath [] packages = Inr packages"
| "stageBuildFiles env moduleName modulePath (buildFile # buildFiles) packages =
     (let relativeFilePath = strings_TrimPrefix buildFile (modulePath @ ''/'');
          relativeDirPath = strings_TrimSuffix (path_Dir relativeFilePath) ''/'';
          packages' = packages @ [path_Join [moduleName, relativeDirPath]]
      in case parseBuildFile env buildFile of
           Inl e \<Rightarrow> Inl e
         | Inr parsed \<Rightarrow> stageBuildFiles env moduleName modulePath buildFiles packages')"

definition copyBuildAndRuleFiles ::
  "env \<Rightarrow> string \<Rightarrow> string \<Rightarrow> string \<Rightarrow> error + string list" where
  "copyBuildAndRuleFiles env moduleName modulePath buildFilesDir =
     (case WalkSymlink env modulePath of
        Inl err \<Rightarrow> Inl (SearchFailed moduleName err)
      | Inr buildFiles \<Rightarrow>
          (case stageBuildFiles env moduleName modulePath buildFiles [] of
             Inl e \<Rightarrow> Inl e
           | Inr packages \<Rightarrow>
               (let rulesDirPath = path_Join [modulePath, RulesDirName]
                in if \<not> DirExists env rulesDirPath then Inr packages
                   else (case Walk env rulesDirPath of
                           Some err \<Rightarrow> Inl (CopyRulesFailed moduleName err)
                         | None \<Rightarrow> Inr packages))))"

fun copyModules ::
  "env \<Rightarrow> string \<Rightarrow> (string \<times> string) list \<Rightarrow> string list \<Rightarrow> error + string list" where
  "copyModules env buildFilesDir [] packages = Inr packages"
| "copyModules env buildFilesDir ((modName, modPath) # modules) packages =
     (case copyBuildAndRuleFiles env modName modPath (path_Join [buildFilesDir, modName]) of
        Inl e \<Rightarrow> Inl e
      | Inr modulePackages \<Rightarrow>
          copyModules env buildFilesDir modules (packages @ modulePackages))"

text \<open>The earlier revision collects import lines instead of package paths.\<close>

fun stageBuildFiles_v1 ::
  "env \<Rightarrow> string \<Rightarrow> string \<Rightarrow> string list \<Rightarrow> string list \<Rightarrow> error + string list" where
  "stageBuildFiles_v1 env moduleName modulePath [] importLines = Inr importLines"
| "stageBuildFiles_v1 env moduleName modulePath (buildFile # buildFiles) importLines =
     (let relativeFilePath = strings_TrimPrefix buildFile (modulePath @ ''/'');
          relativeDirPath = strings_TrimSuffix (path_Dir relativeFilePath) ''/'';
          importLine =
            (if relativeDirPath = ''.''
             then ''import _ '' @ [CHR 0x22] @ moduleName @ [CHR 0x22]
             else ''import _ '' @ [CHR 0x22] @ moduleName @ ''/'' @ relativeDirPath @ [CHR 0x22]);
          importLines' = importLines @ [importLine]
      in case parseBuildFile env buildFile of
           Inl e \<Rightarrow> Inl e
         | Inr parsed \<Rightarrow> stageBuildFiles_v1 env moduleName modulePath buildFiles importLines')"

definition copyBuildAndRuleFiles_v1 ::
  "env \<Rightarrow> string \<Rightarrow> string \<Rightarrow> string \<Rightarrow> error + string list" where
  "copyBuildAndRuleFiles_v1 env moduleName modulePath buildFilesDir =
     (case WalkSymlink env modulePath of
        Inl err \<Rightarrow> Inl (SearchFailed moduleName err)
      | Inr buildFiles \<Rightarrow>
          (case stageBuildFiles_v1 env moduleName modulePath buildFiles [] of
             Inl e \<Rightarrow> Inl e
           | Inr importLines \<Rightarrow>
               (let rulesDirPath = path_Join [modulePath, RulesDirName]
                in if \<not> DirExists env rulesDirPath then Inr importLines
                   else (case Walk env rulesDirPath of
                           Some err \<Rightarrow> Inl (CopyRulesFailed moduleName err)
                         | None \<Rightarrow> Inr importLines))))"

fun copyModules_v1 ::
  "env \<Rightarrow> string \<Rightarrow> (string \<times> string) list \<Rightarrow> string list \<Rightarrow> error + string list" where
  "copyModules_v1 env buildFilesDir [] importLines = Inr importLines"
| "copyModules_v1 env buildFilesDir ((modName, modPath) # modules) importLines =
     (case copyBuildAndRuleFiles_v1 env modName modPath (path_Join [buildFilesDir, modName]) of
        Inl e \<Rightarrow> Inl e
      | Inr moduleImportLines \<Rightarrow>
          copyModules_v1 env buildFilesDir modules (importLines @ moduleImportLines))"

subsection \<open>The later revision: prepareGenerator and runBuild\<close>

record buildInfo =
  workingDir :: string
  sourceDir :: string
  buildOutputDir :: string
  buildFilesDir :: string
  buildFlags :: "string list"
  targets :: "string list"
  ninjaTargets :: "string list"

text \<open>The loop of lines 243 to 249.\<close>

fun splitArgs :: "env \<Rightarrow> string list \<Rightarrow> buildInfo \<Rightarrow> buildInfo" where
  "splitArgs env [] info = info"
| "splitArgs env (arg # args) info =
     (if strings_Contains arg ''=''
      then splitArgs env args (info\<lparr>buildFlags := buildFlags info @ [arg]\<rparr>)
      else splitArgs env args (info\<lparr>targets := targets info @ [normalizeTarget env arg]\<rparr>))"

definition prepareGenerator :: "env \<Rightarrow> string list \<Rightarrow> error + buildInfo" where
  "prepareGenerator env args =
     (let workspaceRoot = GetWorkspaceRoot env;
          info0 = \<lparr>workingDir = GetWorkingDir env,
                   sourceDir = path_Join [workspaceRoot, DepsDirName env],
                   buildOutputDir = [], buildFilesDir = [],
                   buildFlags = [], targets = [], ninjaTargets = []\<rparr>;
          info1 = splitArgs env args info0;
          info2 = info1\<lparr>buildFlags := sort_Strings (buildFlags info1)\<rparr>;
          buildDir = path_Join [workspaceRoot, buildDirName, buildConfigName (buildFlags info1)];
          info3 = info2\<lparr>buildOutputDir := path_Join [buildDir, outputDirName],
                        buildFilesDir := path_Join [buildDir, buildFilesDirName]\<rparr>;
          modules = GetAllModulePaths env workspaceRoot
      in case copyModules env (buildFilesDir info3) modules [] of
           Inl e \<Rightarrow> Inl e
         | Inr packages \<Rightarrow> Inr info3)"

text \<open>\<open>cmdArgs\<close> is the argument list that \<^verbatim>\<open>runGenerator\<close> builds for the Go tool.\<close>

definition cmdArgs :: "buildInfo \<Rightarrow> string \<Rightarrow> string list" where
  "cmdArgs info mode =
     [''run'', mainFileName, mode, sourceDir info, buildOutputDir info, workingDir info]
       @ buildFlags info"

definition runGenerator :: "env \<Rightarrow> buildInfo \<Rightarrow> string \<Rightarrow> string action" where
  "runGenerator env info mode =
     andThen (exec_Run env (buildFilesDir info) ''go'' (cmdArgs info mode))
       (\<lambda>r. case r of
               Inl err \<Rightarrow> log_Fatal (GeneratorFailed mode err)
             | Inr stdout \<Rightarrow> ret stdout)"

definition getAvailable :: "env \<Rightarrow> string \<Rightarrow> buildInfo \<Rightarrow> string set action" where
  "getAvailable env kind info =
     andThen (runGenerator env info kind)
       (\<lambda>stdout. ret {line \<in> set (strings_Split stdout (CHR 0x0A)). line \<noteq> []})"

definition getAvailableTargets :: "env \<Rightarrow> buildInfo \<Rightarrow> string set action" where
  "getAvailableTargets env info = getAvailable env ''targets'' info"

definition getAvailableFlags :: "env \<Rightarrow> buildInfo \<Rightarrow> string set action" where
  "getAvailableFlags env info = getAvailable env ''flags'' info"

text \<open>The loop of lines 156 to 176 over the normalised targets: a plain label must be
  an available target; a label ending in three dots selects every available target that
  has the rest of the label as a prefix, and must select one at least.\<close>

fun resolveTargets :: "string set \<Rightarrow> string list \<Rightarrow> string set \<Rightarrow> error + string set" where
  "resolveTargets availableTargets [] uniqueNinjaTargets = Inr uniqueNinjaTargets"
| "resolveTargets availableTargets (target # rest) uniqueNinjaTargets =
     (if \<not> strings_HasSuffix target ''...''
      then (if target \<notin> availableTargets then Inl (TargetDoesNotExist target)
            else resolveTargets availableTargets rest (insert target uniqueNinjaTargets))
      else
        (let targetPrefix = strings_TrimSuffix target ''...'';
             found = {availableTarget \<in> availableTargets.
                        strings_HasPrefix availableTarget targetPrefix}
         in if found = {} then Inl (NoTargetMatching target)
            else resolveTargets availableTargets rest (uniqueNinjaTargets \<union> found)))"

text \<open>The loop of lines 183 to 188.\<close>

fun checkFlags :: "string set \<Rightarrow> string list \<Rightarrow> error + unit" where
  "checkFlags availableFlags [] = Inr ()"
| "checkFlags availableFlags (flag # flags) =
     (let name = hd (strings_Split flag CHR ''='')
      in if name \<notin> availableFlags then Inl (FlagDoesNotExist name)
         else checkFlags availableFlags flags)"

definition runNinja :: "env \<Rightarrow> buildInfo \<Rightarrow> unit action" where
  "runNinja env info =
     andThen (runGenerator env info ''ninja'')
       (\<lambda>ninjaFileContent.
          (let args = (if Verbose env then ''-v'' # ninjaTargets info else ninjaTargets info)
           in andThen (exec_Run env (buildOutputDir info) ''ninja'' args)
                (\<lambda>r. case r of
                        Inl err \<Rightarrow> log_Fatal (NinjaFailed err)
                      | Inr out \<Rightarrow> ret ())))"

definition printAvailable :: "env \<Rightarrow> string set \<Rightarrow> string set \<Rightarrow> unit action" where
  "printAvailable env availableTargets availableFlags =
     andThen (fmt_Print [[CHR 0x0A] @ ''Available targets:'' @ [CHR 0x0A]])
       (\<lambda>u. andThen (fmt_Print (map (\<lambda>target. ''  //'' @ target @ [CHR 0x0A])
                                    (rangeOrder env availableTargets)))
       (\<lambda>u. andThen (fmt_Print [[CHR 0x0A] @ ''Available flags:'' @ [CHR 0x0A]])
       (\<lambda>u. fmt_Print (map (\<lambda>flag. ''  '' @ flag @ ''='' @ [CHR 0x0A])
                           (rangeOrder env availableFlags)))))"

definition runBuild :: "env \<Rightarrow> string list \<Rightarrow> unit action" where
  "runBuild env args =
     andThen (lift (prepareGenerator env args))
       (\<lambda>info. andThen (getAvailableTargets env info)
       (\<lambda>availableTargets. andThen (getAvailableFlags env info)
       (\<lambda>availableFlags.
          if length (targets info) = 0
          then printAvailable env availableTargets availableFlags
          else andThen (lift (resolveTargets availableTargets (targets info) {}))
                 (\<lambda>uniqueNinjaTargets.
                    andThen (lift (checkFlags availableFlags (buildFlags info)))
                      (\<lambda>u. runNinja env
                              (info\<lparr>ninjaTargets := rangeOrder env uniqueNinjaTargets\<rparr>))))))"

subsection \<open>The earlier revision: runBuild and buildCmd\<close>

text \<open>The loop of lines 113 to 129: the pair holds \<^verbatim>\<open>targets\<close> and \<^verbatim>\<open>buildFlags\<close>.\<close>

fun splitArgs_v1 ::
  "env \<Rightarrow> string list \<Rightarrow> string list \<times> string list \<Rightarrow> string list \<times> string list" where
  "splitArgs_v1 env [] acc = acc"
| "splitArgs_v1 env (arg # args) (ts, fs) =
     (if strings_HasPrefix arg ''--'' then splitArgs_v1 env args (ts, fs @ [arg])
      else splitArgs_v1 env args (ts @ [normalizeTarget_v1 env arg], fs))"

definition generateNinjaFile_v1 ::
  "env \<Rightarrow> string \<Rightarrow> string \<Rightarrow> string \<Rightarrow> string list \<Rightarrow> string list \<Rightarrow> unit action" where
  "generateNinjaFile_v1 env srcDir buildDir bfDir importLines flags =
     andThen (exec_Run env bfDir ''go'' ([''run'', mainFileName, srcDir, buildDir] @ flags))
       (\<lambda>r. case r of
               Inl err \<Rightarrow> log_Fatal NinjaFileFailed
             | Inr stdout \<Rightarrow> ret ())"

definition runNinja_v1 :: "env \<Rightarrow> string \<Rightarrow> string list \<Rightarrow> unit action" where
  "runNinja_v1 env buildDir ts =
     andThen (exec_Run env buildDir ''ninja'' (if Verbose env then ''-v'' # ts else ts))
       (\<lambda>r. case r of
               Inl err \<Rightarrow> log_Fatal BuildFailed
             | Inr out \<Rightarrow> ret ())"

definition runBuild_v1 :: "env \<Rightarrow> string list \<Rightarrow> unit action" where
  "runBuild_v1 env args =
     (let workspaceRoot = GetWorkspaceRoot env;
          srcDir = path_Join [workspaceRoot, DepsDirName env];
          split = splitArgs_v1 env args ([], []);
          ts = fst split;
          fs = sort_Strings (snd split);
          buildDir = path_Join [workspaceRoot, buildDirName, buildConfigName (snd split),
                                outputDirName];
          bfDir = path_Join [workspaceRoot, buildDirName, buildConfigName (snd split),
                             buildFilesDirName];
          modules = GetAllModulePaths env workspaceRoot
      in andThen (lift (copyModules_v1 env bfDir modules []))
           (\<lambda>importLines.
              andThen (generateNinjaFile_v1 env srcDir buildDir bfDir importLines fs)
                (\<lambda>u. runNinja_v1 env buildDir ts)))"

text \<open>\<^verbatim>\<open>buildCmd\<close> of the earlier revision has \<^verbatim>\<open>Args: cobra.MinimumNArgs(1)\<close>: cobra
  calls \<^verbatim>\<open>Run\<close> only when there is one argument at least.\<close>

definition buildCmd_v1 :: "env \<Rightarrow> string list \<Rightarrow> unit action" where
  "buildCmd_v1 env args =
     (if length args < 1 then log_Fatal TooFewArgs else runBuild_v1 env args)"

subsection \<open>Paths of plain elements, and an example environment\<close>

text \<open>A plain element of a path is a name: not empty, without a slash, and neither
  \<^verbatim>\<open>.\<close> nor \<^verbatim>\<open>..\<close>. \<open>rootedPath\<close> writes the absolute path that has the given
  elements. \<open>exampleEnv\<close> is a workspace \<^verbatim>\<open>/ws\<close> with one module \<^verbatim>\<open>/ws/mod\<close>, entered
  from \<^verbatim>\<open>/ws/mod/a/b\<close>, whose generator knows two targets and one flag.\<close>

definition element :: "string \<Rightarrow> bool" where
  "element s \<longleftrightarrow> s \<noteq> [] \<and> CHR ''/'' \<notin> set s \<and> s \<noteq> ''.'' \<and> s \<noteq> ''..''"

definition rootedPath :: "string list \<Rightarrow> string" where
  "rootedPath segs = concat (map (\<lambda>s. CHR ''/'' # s) segs)"

definition exampleEnv :: env where
  "exampleEnv =
     \<lparr>GetWorkspaceRoot = ''/ws'',
      GetWorkingDir = ''/ws/mod/a/b'',
      DepsDirName = ''DEPS'',
      GetModuleRootForPath = (\<lambda>p. ''/ws/mod''),
      GetAllModulePaths = (\<lambda>root. [(''mod'', ''/ws/mod'')]),
      WalkSymlink = (\<lambda>p. Inr [''/ws/mod/a/BUILD.go'']),
      DirExists = (\<lambda>p. False),
      Walk = (\<lambda>p. None),
      ParseFile = (\<lambda>p. Inr (File ''a'' [GenDecl token_IMPORT [ImportSpec ''dbt/RULES/cc''],
                                            GenDecl token_VAR [ValueSpec [''x'']]])),
      Run = (\<lambda>dir name args.
               if name = ''go''
               then (if args ! 2 = ''targets''
                     then Inr (''mod/a/x'' @ [CHR 0x0A] @ ''mod/ab/y'' @ [CHR 0x0A])
                     else if args ! 2 = ''flags'' then Inr (''opt'' @ [CHR 0x0A])
                     else Inr ''rule cc'')
               else Inr []),
      rangeOrder = sorted_list_of_set,
      Verbose = False\<rparr>"

subsection \<open>What the parser's loop accepts, and the words of the specification\<close>

fun specNames :: "spec \<Rightarrow> string list" where
  "specNames (ValueSpec names) = names"
| "specNames (ImportSpec p) = []"
| "specNames (TypeSpec n) = []"

fun declNames :: "decl \<Rightarrow> string list" where
  "declNames (GenDecl tok specs) = concat (map specNames specs)"
| "declNames d = []"

fun refusedSpec :: "token \<Rightarrow> spec \<Rightarrow> bool" where
  "refusedSpec tok (ImportSpec p) = False"
| "refusedSpec tok (ValueSpec names) = (''_'' \<in> set names \<or> tok \<noteq> token_VAR)"
| "refusedSpec tok (TypeSpec n) = True"

fun refusedDecl :: "decl \<Rightarrow> bool" where
  "refusedDecl (GenDecl tok specs) = list_ex (refusedSpec tok) specs"
| "refusedDecl d = True"

fun otherDeclaration :: "decl \<Rightarrow> bool" where
  "otherDeclaration (GenDecl tok specs) = (tok \<noteq> token_IMPORT \<and> tok \<noteq> token_VAR)"
| "otherDeclaration d = True"

text \<open>An import declaration holds import specs, and a \<^verbatim>\<open>var\<close> declaration holds value
  specs; the specification allows them, when no name is \<^verbatim>\<open>_\<close>.\<close>

fun allowedSpec :: "token \<Rightarrow> spec \<Rightarrow> bool" where
  "allowedSpec tok (ImportSpec p) = (tok = token_IMPORT)"
| "allowedSpec tok (ValueSpec names) = (tok = token_VAR \<and> ''_'' \<notin> set names)"
| "allowedSpec tok (TypeSpec n) = False"

fun allowedDecl :: "decl \<Rightarrow> bool" where
  "allowedDecl (GenDecl tok specs) =
     ((tok = token_IMPORT \<or> tok = token_VAR) \<and> list_all (allowedSpec tok) specs)"
| "allowedDecl d = False"

section \<open>Properties\<close>

subsection \<open>The checksum of two flag strings\<close>

text \<open>The table-driven update, one byte at a time, for the bytes of \<^verbatim>\<open>a=1\<close> and of
  \<^verbatim>\<open>a=1#a=1\<close>.\<close>

lemma crcByte_1: "crcByte (simpleMakeTable IEEE) 4294967295 (CHR ''a'') = 390611388"
proof -
  have idx: "ucast (4294967295 :: 32 word) XOR of_nat (of_char (CHR ''a'')) = (158 :: 8 word)"
    by simp
  have tab: "simpleMakeTable IEEE 158 = 397917763"
    by code_simp
  show ?thesis
    unfolding crcByte_def idx tab by simp
qed

lemma crcByte_2: "crcByte (simpleMakeTable IEEE) 390611388 (CHR ''='') = 2594765815"
proof -
  have idx: "ucast (390611388 :: 32 word) XOR of_nat (of_char (CHR ''='')) = (129 :: 8 word)"
    by simp
  have tab: "simpleMakeTable IEEE 129 = 2596254646"
    by code_simp
  show ?thesis
    unfolding crcByte_def idx tab by simp
qed

lemma crcByte_3: "crcByte (simpleMakeTable IEEE) 2594765815 (CHR ''1'') = 1922944894"
proof -
  have idx: "ucast (2594765815 :: 32 word) XOR of_nat (of_char (CHR ''1'')) = (198 :: 8 word)"
    by simp
  have tab: "simpleMakeTable IEEE 198 = 1913087877"
    by code_simp
  show ?thesis
    unfolding crcByte_def idx tab by simp
qed

lemma crcByte_4: "crcByte (simpleMakeTable IEEE) 1922944894 (CHR ''#'') = 363376774"
proof -
  have idx: "ucast (1922944894 :: 32 word) XOR of_nat (of_char (CHR ''#'')) = (93 :: 8 word)"
    by simp
  have tab: "simpleMakeTable IEEE 93 = 366619977"
    by code_simp
  show ?thesis
    unfolding crcByte_def idx tab by simp
qed

lemma crcByte_5: "crcByte (simpleMakeTable IEEE) 363376774 (CHR ''a'') = 1048305515"
proof -
  have idx: "ucast (363376774 :: 32 word) XOR of_nat (of_char (CHR ''a'')) = (231 :: 8 word)"
    by simp
  have tab: "simpleMakeTable IEEE 231 = 1047427035"
    by code_simp
  show ?thesis
    unfolding crcByte_def idx tab by simp
qed

lemma crcByte_6: "crcByte (simpleMakeTable IEEE) 1048305515 (CHR ''='') = 2184613662"
proof -
  have idx: "ucast (1048305515 :: 32 word) XOR of_nat (of_char (CHR ''='')) = (86 :: 8 word)"
    by simp
  have tab: "simpleMakeTable IEEE 86 = 2181625025"
    by code_simp
  show ?thesis
    unfolding crcByte_def idx tab by simp
qed

lemma crcByte_7: "crcByte (simpleMakeTable IEEE) 2184613662 (CHR ''1'') = 2874346454"
proof -
  have idx: "ucast (2184613662 :: 32 word) XOR of_nat (of_char (CHR ''1'')) = (47 :: 8 word)"
    by simp
  have tab: "simpleMakeTable IEEE 47 = 2882616665"
    by code_simp
  show ?thesis
    unfolding crcByte_def idx tab by simp
qed

lemma NOT_zero_32: "NOT (0 :: 32 word) = 4294967295"
  by simp

lemma ChecksumIEEE_a1: "ChecksumIEEE ''a=1'' = 0x8D623081"
  unfolding ChecksumIEEE_def simpleUpdate_def fold_simps NOT_zero_32
    crcByte_1 crcByte_2 crcByte_3
  by simp

lemma ChecksumIEEE_a1_a1: "ChecksumIEEE ''a=1#a=1'' = 0x54ACF429"
  unfolding ChecksumIEEE_def simpleUpdate_def fold_simps NOT_zero_32
    crcByte_1 crcByte_2 crcByte_3 crcByte_4 crcByte_5 crcByte_6 crcByte_7
  by simp

lemma buildConfigName_a1: "buildConfigName [''a=1''] = ''BUILD-8D623081''"
  by (simp add: buildConfigName_def sort_Strings_def ChecksumIEEE_a1 buildDirName_def
      fmt_08X_def upperhex_def)

lemma sort_a1_a1: "sort [''a=1'', ''a=1''] = [''a=1'', ''a=1'']"
  by simp

lemma buildConfigName_a1_a1: "buildConfigName [''a=1'', ''a=1''] = ''BUILD-54ACF429''"
  by (simp add: buildConfigName_def sort_Strings_def ChecksumIEEE_a1_a1 buildDirName_def
      fmt_08X_def upperhex_def)

lemma sort_Strings_mset: "mset xs = mset ys \<Longrightarrow> sort_Strings xs = sort_Strings ys"
  unfolding sort_Strings_def
  by (rule properties_for_sort) simp_all

text \<open>C1, as the code has it: two lists of flags that hold the same flags the same number
  of times, in whatever order, get the same configuration name.\<close>

theorem buildConfigName_permutation:
  "mset F1 = mset F2 \<Longrightarrow> buildConfigName F1 = buildConfigName F2"
proof -
  assume "mset F1 = mset F2"
  then have "sort_Strings F1 = sort_Strings F2"
    by (rule sort_Strings_mset)
  then show ?thesis
    by (simp only: buildConfigName_def)
qed

theorem buildConfigName_permutation_witness:
  "mset [''b=2'', ''a=1''] = mset [''a=1'', ''b=2'']
   \<and> buildConfigName [''b=2'', ''a=1''] = buildConfigName [''a=1'', ''b=2'']"
  using buildConfigName_permutation [of "[''b=2'', ''a=1'']" "[''a=1'', ''b=2'']"]
  by simp

text \<open>C1 as stated fails: a flag given twice leaves the set of flags as it was and
  changes the configuration name, since the flags are sorted and never deduplicated.\<close>

theorem buildConfigName_duplicate_counterexample:
  "set [''a=1'', ''a=1''] = set [''a=1'']
   \<and> buildConfigName [''a=1'', ''a=1''] \<noteq> buildConfigName [''a=1'']"
  by (simp add: buildConfigName_a1 buildConfigName_a1_a1)

subsection \<open>Cleaning and joining paths of plain elements\<close>

lemma rootedPath_simps [simp]:
  "rootedPath [] = []"
  "rootedPath (s # ss) = CHR ''/'' # s @ rootedPath ss"
  "rootedPath (xs @ ys) = rootedPath xs @ rootedPath ys"
  by (simp_all add: rootedPath_def)

lemma Split_no_sep: "sep \<notin> set s \<Longrightarrow> strings_Split s sep = [s]"
  by (induction s) auto

lemma Split_append_sep:
  "sep \<notin> set s \<Longrightarrow> strings_Split (s @ sep # r) sep = s # strings_Split r sep"
  by (induction s) auto

lemma Split_nonempty: "strings_Split s sep \<noteq> []"
  by (induction s) (auto split: list.splits)

lemma Split_elements:
  "CHR ''/'' \<notin> set s \<Longrightarrow> \<forall>x\<in>set ss. CHR ''/'' \<notin> set x \<Longrightarrow>
   strings_Split (s @ rootedPath ss) CHR ''/'' = s # ss"
proof (induction ss arbitrary: s)
  case Nil
  then show ?case by (simp add: Split_no_sep)
next
  case (Cons t ts)
  then show ?case by (simp add: Split_append_sep)
qed

lemma Split_elements_slash:
  "CHR ''/'' \<notin> set s \<Longrightarrow> \<forall>x\<in>set ss. CHR ''/'' \<notin> set x \<Longrightarrow>
   strings_Split (s @ rootedPath ss @ ''/'') CHR ''/'' = s # ss @ [[]]"
proof (induction ss arbitrary: s)
  case Nil
  then show ?case by (simp add: Split_append_sep)
next
  case (Cons t ts)
  then show ?case by (simp add: Split_append_sep)
qed

lemma cleanElem_element:
  "element s \<Longrightarrow> cleanElem True (out, d) s = ((if length out \<noteq> 1 then out @ ''/'' else out) @ s, d)"
  by (auto simp: cleanElem_def element_def)

lemma cleanElem_empty: "cleanElem r st [] = st"
  by (simp add: cleanElem_def split: prod.splits)

lemma length_rootedPath: "pre \<noteq> [] \<Longrightarrow> \<forall>x\<in>set pre. element x \<Longrightarrow> 2 \<le> length (rootedPath pre)"
  by (cases pre) (auto simp: element_def Suc_le_eq)

lemma foldl_elements:
  "pre \<noteq> [] \<Longrightarrow> \<forall>x\<in>set pre. element x \<Longrightarrow> \<forall>x\<in>set ss. element x \<Longrightarrow>
   foldl (cleanElem True) (rootedPath pre, 1) ss = (rootedPath (pre @ ss), 1)"
proof (induction ss arbitrary: pre)
  case Nil
  then show ?case by simp
next
  case (Cons s ss)
  have len: "length (rootedPath pre) \<noteq> 1"
    using length_rootedPath [OF Cons.prems(1,2)] by simp
  have step: "cleanElem True (rootedPath pre, 1) s = (rootedPath (pre @ [s]), 1)"
    using Cons.prems(3) len by (simp add: cleanElem_element)
  have "foldl (cleanElem True) (rootedPath (pre @ [s]), 1) ss = (rootedPath ((pre @ [s]) @ ss), 1)"
    using Cons.prems by (intro Cons.IH) auto
  then show ?case
    using step by simp
qed

lemma foldl_root:
  assumes "\<forall>x\<in>set ss. element x"
  shows "foldl (cleanElem True) (''/'', 1) ss = (if ss = [] then ''/'' else rootedPath ss, 1)"
proof (cases ss)
  case Nil
  then show ?thesis by simp
next
  case (Cons s rest)
  have "cleanElem True (''/'', 1) s = (rootedPath [s], 1)"
    using assms Cons by (simp add: cleanElem_element)
  moreover have "foldl (cleanElem True) (rootedPath [s], 1) rest = (rootedPath ([s] @ rest), 1)"
    using assms Cons by (intro foldl_elements) auto
  ultimately show ?thesis
    using Cons by simp
qed

lemma Clean_rooted:
  "path_Clean (CHR ''/'' # r) =
     (let out = fst (foldl (cleanElem True) (''/'', 1) (strings_Split r CHR ''/''))
      in if out = [] then ''.'' else out)"
  by (simp add: path_Clean_def)

lemma Clean_rootedPath:
  assumes "segs \<noteq> []" "\<forall>x\<in>set segs. element x"
  shows "path_Clean (rootedPath segs) = rootedPath segs"
proof -
  obtain s ss where segs: "segs = s # ss"
    using assms(1) by (cases segs) auto
  have sp: "strings_Split (s @ rootedPath ss) CHR ''/'' = segs"
    using assms(2) segs by (simp add: Split_elements element_def)
  have fl: "foldl (cleanElem True) (''/'', 1) segs = (rootedPath segs, 1)"
    using foldl_root [OF assms(2)] assms(1) by simp
  have "path_Clean (CHR ''/'' # s @ rootedPath ss) = rootedPath segs"
    unfolding Clean_rooted sp fl using segs by simp
  then show ?thesis
    using segs by simp
qed

lemma Clean_rootedPath_slash:
  assumes "\<forall>x\<in>set segs. element x"
  shows "path_Clean (rootedPath segs @ ''/'') = (if segs = [] then ''/'' else rootedPath segs)"
proof (cases segs)
  case Nil
  then show ?thesis
    by (simp add: path_Clean_def cleanElem_empty)
next
  case (Cons s ss)
  have sp: "strings_Split (s @ rootedPath ss @ ''/'') CHR ''/'' = segs @ [[]]"
    using assms Cons by (simp add: Split_elements_slash element_def)
  have fl: "foldl (cleanElem True) (''/'', 1) (segs @ [[]]) = (rootedPath segs, 1)"
    using foldl_root [OF assms] Cons by (simp add: cleanElem_empty)
  have "path_Clean (CHR ''/'' # s @ rootedPath ss @ ''/'') = rootedPath segs"
    unfolding Clean_rooted sp fl using Cons by simp
  then show ?thesis
    using Cons by simp
qed

lemma Join_two:
  "a \<noteq> [] \<Longrightarrow> path_Join [a, b] = path_Clean (a @ ''/'' @ b)"
  by (simp add: path_Join_def)

lemma Join_wd_element:
  assumes "segs \<noteq> []" "\<forall>x\<in>set segs. element x" "element c"
  shows "path_Join [rootedPath segs, c] = rootedPath (segs @ [c])"
proof -
  have ne: "rootedPath segs \<noteq> []"
    using assms(1) by (cases segs) auto
  have "path_Clean (rootedPath (segs @ [c])) = rootedPath (segs @ [c])"
    using assms by (intro Clean_rootedPath) auto
  then show ?thesis
    using ne by (simp add: Join_two)
qed



lemma dir_part:
  assumes "CHR ''/'' \<notin> set m"
  shows "rev (dropWhile (\<lambda>c. c \<noteq> CHR ''/'') (rev (p @ CHR ''/'' # m))) = p @ ''/''"
proof -
  have "dropWhile (\<lambda>c. c \<noteq> CHR ''/'') (rev m @ CHR ''/'' # rev p) =
        dropWhile (\<lambda>c. c \<noteq> CHR ''/'') (CHR ''/'' # rev p)"
    using assms by (intro dropWhile_append2) auto
  then show ?thesis
    by simp
qed

lemma Dir_rootedPath:
  assumes "\<forall>x\<in>set ps. element x" "element m"
  shows "path_Dir (rootedPath ps @ CHR ''/'' # m) = (if ps = [] then ''/'' else rootedPath ps)"
proof -
  have m: "CHR ''/'' \<notin> set m"
    using assms(2) by (simp add: element_def)
  have "path_Dir (rootedPath ps @ CHR ''/'' # m) = path_Clean (rootedPath ps @ ''/'')"
    unfolding path_Dir_def dir_part [OF m] ..
  then show ?thesis
    using assms(1) by (simp only: Clean_rootedPath_slash)
qed

lemma TrimLeft_element:
  assumes "element m"
  shows "strings_TrimLeft (CHR ''/'' # m @ r) ''/'' = m @ r"
    and "strings_TrimLeft (m @ r) ''/'' = m @ r"
proof -
  obtain a m' where m: "m = a # m'" and a: "a \<noteq> CHR ''/''"
    using assms by (cases m) (auto simp: element_def)
  show "strings_TrimLeft (CHR ''/'' # m @ r) ''/'' = m @ r"
    by (simp add: strings_TrimLeft_def m a)
  show "strings_TrimLeft (m @ r) ''/'' = m @ r"
    by (simp add: strings_TrimLeft_def m a)
qed

lemma TrimPrefix_append: "strings_TrimPrefix (p @ r) p = r"
  by (simp add: strings_TrimPrefix_def strings_HasPrefix_def)

lemma trimmed_path:
  assumes "\<forall>x\<in>set ps. element x" "element m"
  shows "strings_TrimPrefix (rootedPath ps @ CHR ''/'' # m @ r)
           (path_Dir (rootedPath ps @ CHR ''/'' # m))
         = (if ps = [] then m @ r else CHR ''/'' # m @ r)"
proof (cases "ps = []")
  case True
  have D: "path_Dir (rootedPath ps @ CHR ''/'' # m) = ''/''"
    using Dir_rootedPath [OF assms] True by simp
  have "strings_TrimPrefix (''/'' @ m @ r) ''/'' = m @ r"
    by (rule TrimPrefix_append)
  then show ?thesis
    unfolding D using True by simp
next
  case False
  have D: "path_Dir (rootedPath ps @ CHR ''/'' # m) = rootedPath ps"
    using Dir_rootedPath [OF assms] False by simp
  have "strings_TrimPrefix (rootedPath ps @ CHR ''/'' # m @ r) (rootedPath ps) = CHR ''/'' # m @ r"
    by (rule TrimPrefix_append)
  then show ?thesis
    unfolding D using False by simp
qed

lemma label_of_path:
  assumes "\<forall>x\<in>set ps. element x" "element m"
  shows "strings_TrimLeft
           (strings_TrimPrefix (rootedPath ps @ CHR ''/'' # m @ r)
              (path_Dir (rootedPath ps @ CHR ''/'' # m))) ''/''
         = m @ r"
  unfolding trimmed_path [OF assms] using assms(2) by (simp add: TrimLeft_element)


lemma element_simps: "element ''a''" "element ''b''" "element ''c''" "element ''ws''" "element ''mod''"
  by (simp_all add: element_def)

lemma normalizeTarget_element:
  assumes "\<forall>x\<in>set ps. element x" "element m" "\<forall>x\<in>set ds. element x" "element c"
    and wd: "GetWorkingDir env = rootedPath (ps @ m # ds)"
    and mr: "GetModuleRootForPath env (rootedPath (ps @ m # ds @ [c])) = rootedPath (ps @ [m])"
  shows "normalizeTarget env c = m @ rootedPath (ds @ [c])"
    and "normalizeTarget_v1 env c = m @ rootedPath (ds @ [c])"
proof -
  have c: "\<not> strings_HasPrefix c ''//''" "\<not> strings_HasSuffix c ''/''" "c \<noteq> []"
    using assms(4) by (auto simp: element_def strings_HasPrefix_def strings_HasSuffix_def
        prefix_def suffix_def)
  have j: "path_Join [GetWorkingDir env, c] = rootedPath ((ps @ m # ds) @ [c])"
    unfolding wd using assms(1-4) by (intro Join_wd_element) auto
  have l: "strings_TrimLeft
             (strings_TrimPrefix (rootedPath ps @ CHR ''/'' # m @ rootedPath (ds @ [c]))
                (path_Dir (rootedPath ps @ CHR ''/'' # m))) ''/''
           = m @ rootedPath (ds @ [c])"
    using assms(1,2) by (rule label_of_path)
  show "normalizeTarget env c = m @ rootedPath (ds @ [c])"
    using c j mr l by (simp add: normalizeTarget_def Let_def)
  show "normalizeTarget_v1 env c = m @ rootedPath (ds @ [c])"
    using c j mr l by (simp add: normalizeTarget_v1_def Let_def)
qed




lemma rootedPath_examples:
  "rootedPath [''ws'', ''mod'', ''a'', ''b''] = ''/ws/mod/a/b''"
  "rootedPath [''ws'', ''mod'', ''a'', ''b'', ''c''] = ''/ws/mod/a/b/c''"
  "rootedPath [''ws'', ''mod''] = ''/ws/mod''"
  "rootedPath [''a'', ''b'', ''c''] = ''/a/b/c''"
  "rootedPath [''a'', ''b''] = ''/a/b''"
  by simp_all

lemma exampleEnv_c: "normalizeTarget exampleEnv ''c'' = ''mod/a/b/c''"
  using normalizeTarget_element(1) [of "[''ws'']" "''mod''" "[''a'', ''b'']" "''c''" exampleEnv]
  by (simp add: element_def exampleEnv_def)




text \<open>C6, as the code has it: the label keeps the name of the module's own directory,
  since only the path of the module root's parent is cut off. The module root is any
  absolute path of plain elements, \<open>ps\<close> above the module's directory \<open>m\<close>.\<close>

theorem normalizeTarget_module_relative:
  assumes "\<forall>x\<in>set ps. element x" and "element m"
    and "GetWorkingDir env = rootedPath (ps @ [m]) @ ''/a/b''"
    and "GetModuleRootForPath env (rootedPath (ps @ [m]) @ ''/a/b/c'') = rootedPath (ps @ [m])"
  shows "normalizeTarget env ''c'' = m @ ''/a/b/c''
       \<and> normalizeTarget_v1 env ''c'' = m @ ''/a/b/c''"
  using normalizeTarget_element [of ps m "[''a'', ''b'']" "''c''" env] assms
  by (simp add: element_def)

theorem normalizeTarget_module_relative_witness:
  "element ''ws'' \<and> element ''mod''
   \<and> GetWorkingDir exampleEnv = rootedPath ([''ws''] @ [''mod'']) @ ''/a/b''
   \<and> GetModuleRootForPath exampleEnv (rootedPath ([''ws''] @ [''mod'']) @ ''/a/b/c'')
       = rootedPath ([''ws''] @ [''mod''])
   \<and> normalizeTarget exampleEnv ''c'' = ''mod/a/b/c''
   \<and> normalizeTarget_v1 exampleEnv ''c'' = ''mod/a/b/c''"
  using normalizeTarget_module_relative [of "[''ws'']" "''mod''" exampleEnv]
  by (simp add: element_def exampleEnv_def)

text \<open>C6 as stated fails: with the module root \<^verbatim>\<open>/ws/mod\<close> and the working directory
  \<^verbatim>\<open>/ws/mod/a/b\<close> the argument \<^verbatim>\<open>c\<close> does not give \<^verbatim>\<open>a/b/c\<close>.\<close>

theorem normalizeTarget_module_relative_counterexample:
  "GetWorkingDir exampleEnv = ''/ws/mod'' @ ''/a/b''
   \<and> GetModuleRootForPath exampleEnv (''/ws/mod'' @ ''/a/b/c'') = ''/ws/mod''
   \<and> normalizeTarget exampleEnv ''c'' \<noteq> ''a/b/c''"
  by (simp add: exampleEnv_c) (simp add: exampleEnv_def)




subsection \<open>Parsing a definition file\<close>

lemma token_String_var: "token_String tok = ''var'' \<longleftrightarrow> tok = token_VAR"
  by (cases tok) simp_all

lemma parseNames_eq:
  "parseNames p names acc =
     (if ''_'' \<in> set names then Inl (AnonymousTargets p) else Inr (acc @ names))"
  by (induction names arbitrary: acc) auto

lemma parseSpecs_accepts:
  "\<not> list_ex (refusedSpec tok) specs \<Longrightarrow>
   parseSpecs p tok specs acc = Inr (acc @ concat (map specNames specs))"
  by (induction p tok specs acc rule: parseSpecs.induct)
     (auto simp: parseNames_eq token_String_var)

lemma parseSpecs_refuses:
  "list_ex (refusedSpec tok) specs \<Longrightarrow>
   parseSpecs p tok specs acc \<in> {Inl (InvalidDeclarations p), Inl (AnonymousTargets p)}"
  by (induction p tok specs acc rule: parseSpecs.induct)
     (auto simp: parseNames_eq token_String_var)

lemma parseDecls_accepts:
  "\<not> list_ex refusedDecl decls \<Longrightarrow>
   parseDecls p decls acc = Inr (acc @ concat (map declNames decls))"
  by (induction p decls acc rule: parseDecls.induct)
     (auto simp: parseSpecs_accepts)

lemma parseDecls_refuses:
  "list_ex refusedDecl decls \<Longrightarrow>
   parseDecls p decls acc \<in> {Inl (InvalidDeclarations p), Inl (AnonymousTargets p)}"
proof (induction p decls acc rule: parseDecls.induct)
  case (2 p tok specs decls acc)
  show ?case
  proof (cases "list_ex (refusedSpec tok) specs")
    case True
    then show ?thesis
      using parseSpecs_refuses [of tok specs p acc] by auto
  next
    case False
    then show ?thesis
      using 2 by (auto simp: parseSpecs_accepts)
  qed
qed auto

lemma allowed_not_refused: "list_all allowedDecl decls \<Longrightarrow> \<not> list_ex refusedDecl decls"
proof (induction decls)
  case Nil
  then show ?case by simp
next
  case (Cons d decls)
  have s: "allowedSpec tok x \<Longrightarrow> \<not> refusedSpec tok x" for tok x
    by (cases x) auto
  have "\<not> refusedDecl d"
    using Cons.prems s by (cases d) (auto simp: list_all_iff list_ex_iff)
  then show ?case
    using Cons by simp
qed

text \<open>The loop looks at the specs of a group, one by one, and never at a group that
  holds none: the empty group \<^verbatim>\<open>type ()\<close> passes, whatever the message of the fatal
  error says of declarations other than imports and \<^verbatim>\<open>var\<close> declarations.\<close>

lemma parseBuildFile_empty_group:
  "otherDeclaration (GenDecl token_TYPE [])
   \<and> parseBuildFile (exampleEnv\<lparr>ParseFile := \<lambda>p. Inr (File ''a'' [GenDecl token_TYPE []])\<rparr>)
        ''BUILD.go'' = Inr (''a'', [])"
  by (simp add: parseBuildFile_def)

text \<open>C4, as the code has it: parsing fails when the Go parser fails, and when some
  declaration is refused: a declaration that is not a general declaration, or one that
  holds a type spec, a value spec under a keyword other than \<^verbatim>\<open>var\<close>, or a value spec
  naming \<^verbatim>\<open>_\<close>. When the file parses and every declaration is an import declaration or
  a \<^verbatim>\<open>var\<close> declaration naming no \<^verbatim>\<open>_\<close>, the package name and every declared
  identifier are returned, in the order of the file.\<close>

theorem parseBuildFile_result:
  "(ParseFile env p = Inl err \<longrightarrow> parseBuildFile env p = Inl (ParseFailed p err))
   \<and> (ParseFile env p = Inr f \<and> list_ex refusedDecl (Decls f) \<longrightarrow>
        parseBuildFile env p \<in> {Inl (InvalidDeclarations p), Inl (AnonymousTargets p)})
   \<and> (ParseFile env p = Inr f \<and> list_all allowedDecl (Decls f) \<longrightarrow>
        parseBuildFile env p = Inr (Name f, concat (map declNames (Decls f))))"
proof (intro conjI impI)
  assume "ParseFile env p = Inl err"
  then show "parseBuildFile env p = Inl (ParseFailed p err)"
    by (simp add: parseBuildFile_def)
next
  assume a: "ParseFile env p = Inr f \<and> list_ex refusedDecl (Decls f)"
  then show "parseBuildFile env p \<in> {Inl (InvalidDeclarations p), Inl (AnonymousTargets p)}"
    using parseDecls_refuses [of "Decls f" p "[]"] by (auto simp: parseBuildFile_def)
next
  assume a: "ParseFile env p = Inr f \<and> list_all allowedDecl (Decls f)"
  then have "\<not> list_ex refusedDecl (Decls f)"
    using allowed_not_refused by blast
  then show "parseBuildFile env p = Inr (Name f, concat (map declNames (Decls f)))"
    using a by (simp add: parseBuildFile_def parseDecls_accepts)
qed

theorem parseBuildFile_result_witness:
  "parseBuildFile (exampleEnv\<lparr>ParseFile := \<lambda>p. Inl ''expected declaration''\<rparr>) ''BUILD.go''
     = Inl (ParseFailed ''BUILD.go'' ''expected declaration'')
   \<and> parseBuildFile (exampleEnv\<lparr>ParseFile := \<lambda>p. Inr (File ''a'' [FuncDecl ''f''])\<rparr>) ''BUILD.go''
     = Inl (InvalidDeclarations ''BUILD.go'')
   \<and> list_all allowedDecl [GenDecl token_IMPORT [ImportSpec ''dbt/RULES/cc''],
                            GenDecl token_VAR [ValueSpec [''x'']]]
   \<and> parseBuildFile exampleEnv ''BUILD.go'' = Inr (''a'', [''x''])"
  using
    parseBuildFile_result [of "exampleEnv\<lparr>ParseFile := \<lambda>p. Inl ''expected declaration''\<rparr>"
      "''BUILD.go''" "''expected declaration''" "File ''a'' []"]
    parseBuildFile_result [of "exampleEnv\<lparr>ParseFile := \<lambda>p. Inr (File ''a'' [FuncDecl ''f''])\<rparr>"
      "''BUILD.go''" "[]" "File ''a'' [FuncDecl ''f'']"]
    parseBuildFile_result [of exampleEnv "''BUILD.go''" "[]"
      "File ''a'' [GenDecl token_IMPORT [ImportSpec ''dbt/RULES/cc''],
                   GenDecl token_VAR [ValueSpec [''x'']]]"]
  by (simp add: exampleEnv_def parseBuildFile_def)

text \<open>C4 as stated fails: an empty file holds no declaration and no name, the Go parser
  reports that the package clause is missing, and parsing the file is fatal.\<close>

theorem parseBuildFile_counterexample:
  "parseBuildFile
     (exampleEnv\<lparr>ParseFile := \<lambda>p. Inl ''BUILD.go:1:1: expected package, found EOF''\<rparr>)
     ''BUILD.go''
   = Inl (ParseFailed ''BUILD.go'' ''BUILD.go:1:1: expected package, found EOF'')"
  by (simp add: parseBuildFile_def)

subsection \<open>Splitting the arguments, and the wildcard\<close>

lemma strings_Contains_char: "strings_Contains s [c] \<longleftrightarrow> c \<in> set s"
  unfolding strings_Contains_def sublist_def
  by (auto simp: in_set_conv_decomp)

lemma splitArgs_eq:
  "splitArgs env args info =
     info\<lparr>buildFlags := buildFlags info @ filter (\<lambda>a. strings_Contains a ''='') args,
          targets := targets info @
            map (normalizeTarget env) (filter (\<lambda>a. \<not> strings_Contains a ''='') args)\<rparr>"
  by (induction args arbitrary: info) simp_all

lemma splitArgs_v1_eq:
  "splitArgs_v1 env args (ts, fs) =
     (ts @ map (normalizeTarget_v1 env) (filter (\<lambda>a. \<not> strings_HasPrefix a ''--'') args),
      fs @ filter (\<lambda>a. strings_HasPrefix a ''--'') args)"
  by (induction args arbitrary: ts fs) simp_all

lemma prepareGenerator_fields:
  assumes "prepareGenerator env args = Inr info"
  shows "buildFlags info = sort_Strings (filter (\<lambda>a. strings_Contains a ''='') args)"
    and "targets info = map (normalizeTarget env) (filter (\<lambda>a. \<not> strings_Contains a ''='') args)"
  using assms
  by (auto simp: prepareGenerator_def Let_def splitArgs_eq split: sum.splits)

lemma stage_exampleEnv:
  "copyModules exampleEnv d (GetAllModulePaths exampleEnv r) [] = Inr [path_Join [''mod'', ''a'']]"
proof -
  have d: "strings_TrimSuffix (path_Dir (strings_TrimPrefix ''/ws/mod/a/BUILD.go'' ''/ws/mod/'')) ''/''
           = ''a''"
    by code_simp
  show ?thesis
    by (simp add: exampleEnv_def copyBuildAndRuleFiles_def parseBuildFile_def Let_def d)
qed

text \<open>C5, as the code has it: the later revision takes an argument for a flag exactly
  when it contains \<^verbatim>\<open>=\<close>, the earlier one exactly when it starts with \<^verbatim>\<open>--\<close>; every
  other argument is normalised into a target label, and nothing else decides.\<close>

theorem arguments_partition:
  "buildFlags (splitArgs env args info) =
     buildFlags info @ filter (\<lambda>a. CHR ''='' \<in> set a) args
   \<and> targets (splitArgs env args info) =
     targets info @ map (normalizeTarget env) (filter (\<lambda>a. CHR ''='' \<notin> set a) args)
   \<and> (prepareGenerator env args = Inr info' \<longrightarrow>
        buildFlags info' = sort_Strings (filter (\<lambda>a. CHR ''='' \<in> set a) args)
        \<and> targets info' = map (normalizeTarget env) (filter (\<lambda>a. CHR ''='' \<notin> set a) args))
   \<and> splitArgs_v1 env args (ts, fs) =
       (ts @ map (normalizeTarget_v1 env) (filter (\<lambda>a. \<not> prefix ''--'' a) args),
        fs @ filter (\<lambda>a. prefix ''--'' a) args)"
  using prepareGenerator_fields [of env args info']
  by (simp add: splitArgs_eq splitArgs_v1_eq strings_Contains_char strings_HasPrefix_def)

lemma prepareGenerator_exampleEnv: "\<exists>info. prepareGenerator exampleEnv args = Inr info"
  by (simp add: prepareGenerator_def Let_def stage_exampleEnv)

lemma exampleEnv_label: "normalizeTarget exampleEnv ''//mod/a/x'' = ''mod/a/x''"
  by (simp add: normalizeTarget_def strings_HasPrefix_def strings_TrimLeft_def)

theorem arguments_partition_witness:
  "\<exists>info'. prepareGenerator exampleEnv [''//mod/a/x'', ''opt=1''] = Inr info'
     \<and> buildFlags info' = [''opt=1'']
     \<and> targets info' = [''mod/a/x'']"
proof -
  obtain info' where p: "prepareGenerator exampleEnv [''//mod/a/x'', ''opt=1''] = Inr info'"
    using prepareGenerator_exampleEnv by blast
  have "buildFlags info' = [''opt=1''] \<and> targets info' = [''mod/a/x'']"
    using arguments_partition [of exampleEnv "[''//mod/a/x'', ''opt=1'']" info' info' "[]" "[]"] p
    by (simp add: sort_Strings_def exampleEnv_label)
  then show ?thesis
    using p by blast
qed

text \<open>C5 as stated fails on the earlier revision: \<^verbatim>\<open>--release\<close> has no \<^verbatim>\<open>=\<close> and is
  taken for a flag.\<close>

theorem arguments_partition_counterexample:
  "\<not> strings_Contains ''--release'' ''=''
   \<and> splitArgs_v1 exampleEnv [''--release''] ([], []) = ([], [''--release''])"
  by (simp add: strings_Contains_char strings_HasPrefix_def)

lemma HasSuffix_dots: "strings_HasSuffix (p @ ''...'') ''...''"
  by (simp add: strings_HasSuffix_def suffix_def)

lemma TrimSuffix_dots: "strings_TrimSuffix (p @ ''...'') ''...'' = p"
  by (simp add: strings_TrimSuffix_def HasSuffix_dots)

lemma resolveTargets_wildcard:
  "resolveTargets A ((p @ ''...'') # rest) U =
     (if {t \<in> A. prefix p t} = {} then Inl (NoTargetMatching (p @ ''...''))
      else resolveTargets A rest (U \<union> {t \<in> A. prefix p t}))"
  by (simp add: HasSuffix_dots TrimSuffix_dots strings_HasPrefix_def Let_def)

lemma resolveTargets_unmatched:
  "p @ ''...'' \<in> set ts \<Longrightarrow> {t \<in> A. prefix p t} = {} \<Longrightarrow> \<exists>e. resolveTargets A ts U = Inl e"
proof (induction ts arbitrary: U)
  case Nil
  then show ?case by simp
next
  case (Cons x ts)
  show ?case
  proof (cases "x = p @ ''...''")
    case True
    then show ?thesis
      using Cons.prems(2) by (simp only: resolveTargets_wildcard) simp
  next
    case False
    then have "p @ ''...'' \<in> set ts"
      using Cons.prems(1) by simp
    then have "\<exists>e. resolveTargets A ts U' = Inl e" for U'
      using Cons.IH Cons.prems(2) by blast
    then show ?thesis
      by (auto simp: Let_def)
  qed
qed

lemma example_filter: "{t \<in> {''a/x'', ''ab/y'', ''b/z''}. prefix ''a'' t} = {''a/x'', ''ab/y''}"
  by auto

text \<open>C10: the three dots select by string prefix. With the targets \<^verbatim>\<open>a/x\<close>, \<^verbatim>\<open>ab/y\<close>
  and \<^verbatim>\<open>b/z\<close> the argument \<^verbatim>\<open>a...\<close> selects \<^verbatim>\<open>ab/y\<close>, of the sibling directory
  \<^verbatim>\<open>ab\<close>, along with \<^verbatim>\<open>a/x\<close>.\<close>

theorem wildcard_is_string_prefix:
  "resolveTargets {''a/x'', ''ab/y'', ''b/z''} [''a...''] {} = Inr {''a/x'', ''ab/y''}"
proof -
  have e: "''a...'' = ''a'' @ ''...''"
    by simp
  show ?thesis
    unfolding e resolveTargets_wildcard example_filter by simp
qed

subsection \<open>The run of the later revision, step by step\<close>

lemma andThen_simps:
  "andThen (t, Inl e) f = (t, Inl e)"
  "andThen (t, Inr v) f = (t @ fst (f v), snd (f v))"
  by (simp_all add: andThen_def split: prod.splits)

lemma andThen_lift:
  "andThen (lift (Inr v)) f = f v"
  "andThen (lift (Inl e)) f = ([], Inl e)"
  by (simp_all add: andThen_def lift_def split: prod.splits)

lemma getAvailable_eq:
  "getAvailable env kind info =
     ([Exec (buildFilesDir info) ''go'' (cmdArgs info kind)],
      case Run env (buildFilesDir info) ''go'' (cmdArgs info kind) of
        Inl err \<Rightarrow> Inl (GeneratorFailed kind err)
      | Inr out \<Rightarrow> Inr {line \<in> set (strings_Split out (CHR 0x0A)). line \<noteq> []})"
  by (simp add: getAvailable_def runGenerator_def exec_Run_def andThen_simps log_Fatal_def
      ret_def split: sum.splits)

lemma fst_getAvailable:
  "fst (getAvailableTargets env info) = [Exec (buildFilesDir info) ''go'' (cmdArgs info ''targets'')]"
  "fst (getAvailableFlags env info) = [Exec (buildFilesDir info) ''go'' (cmdArgs info ''flags'')]"
  by (simp_all add: getAvailableTargets_def getAvailableFlags_def getAvailable_eq)

lemma printAvailable_eq:
  "printAvailable env A F =
     ([Print ([CHR 0x0A] @ ''Available targets:'' @ [CHR 0x0A])]
        @ map (\<lambda>t. Print (''  //'' @ t @ [CHR 0x0A])) (rangeOrder env A)
        @ [Print ([CHR 0x0A] @ ''Available flags:'' @ [CHR 0x0A])]
        @ map (\<lambda>f. Print (''  '' @ f @ ''='' @ [CHR 0x0A])) (rangeOrder env F),
      Inr ())"
  by (simp add: printAvailable_def fmt_Print_def andThen_simps comp_def)

lemma runBuild_prepared:
  assumes "prepareGenerator env args = Inr info"
  shows "runBuild env args =
    (case snd (getAvailableTargets env info) of
       Inl e \<Rightarrow> (fst (getAvailableTargets env info), Inl e)
     | Inr A \<Rightarrow>
        (case snd (getAvailableFlags env info) of
           Inl e \<Rightarrow> (fst (getAvailableTargets env info) @ fst (getAvailableFlags env info), Inl e)
         | Inr F \<Rightarrow>
            (if targets info = []
             then (fst (getAvailableTargets env info) @ fst (getAvailableFlags env info)
                     @ fst (printAvailable env A F), Inr ())
             else (case resolveTargets A (targets info) {} of
                     Inl e \<Rightarrow>
                       (fst (getAvailableTargets env info) @ fst (getAvailableFlags env info), Inl e)
                   | Inr U \<Rightarrow>
                      (case checkFlags F (buildFlags info) of
                         Inl e \<Rightarrow>
                           (fst (getAvailableTargets env info) @ fst (getAvailableFlags env info),
                            Inl e)
                       | Inr u \<Rightarrow>
                           (fst (getAvailableTargets env info) @ fst (getAvailableFlags env info)
                              @ fst (runNinja env (info\<lparr>ninjaTargets := rangeOrder env U\<rparr>)),
                            snd (runNinja env (info\<lparr>ninjaTargets := rangeOrder env U\<rparr>))))))))"
proof -
  obtain t1 r1 where g1: "getAvailableTargets env info = (t1, r1)"
    by (cases "getAvailableTargets env info")
  obtain t2 r2 where g2: "getAvailableFlags env info = (t2, r2)"
    by (cases "getAvailableFlags env info")
  have "runBuild env args =
          andThen (t1, r1) (\<lambda>A. andThen (t2, r2) (\<lambda>F.
            if length (targets info) = 0 then printAvailable env A F
            else andThen (lift (resolveTargets A (targets info) {})) (\<lambda>U.
                   andThen (lift (checkFlags F (buildFlags info))) (\<lambda>u.
                     runNinja env (info\<lparr>ninjaTargets := rangeOrder env U\<rparr>)))))"
    by (simp add: runBuild_def assms andThen_lift g1 g2)
  then show ?thesis
    unfolding g1 g2
    by (cases r1; cases r2)
       (simp_all add: andThen_simps andThen_lift printAvailable_eq split: sum.splits)
qed

lemma runBuild_unprepared:
  "prepareGenerator env args = Inl e \<Longrightarrow> runBuild env args = ([], Inl e)"
  by (simp add: runBuild_def andThen_lift)

lemma ninja_invoked_simps:
  "ninja_invoked (t, r) \<longleftrightarrow> filter is_ninja t \<noteq> []"
  by (simp add: ninja_invoked_def)

lemma no_ninja_listing:
  "filter is_ninja (fst (getAvailableTargets env info)) = []"
  "filter is_ninja (fst (getAvailableFlags env info)) = []"
  "filter is_ninja (fst (printAvailable env A F)) = []"
  by (simp_all add: fst_getAvailable printAvailable_eq filter_map comp_def)

lemma no_ninja_before_runNinja:
  assumes "prepareGenerator env args = Inr info"
    and "targets info = []
         \<or> (\<forall>A. snd (getAvailableTargets env info) = Inr A \<longrightarrow>
               (\<exists>e. resolveTargets A (targets info) {} = Inl e))
         \<or> (\<forall>F. snd (getAvailableFlags env info) = Inr F \<longrightarrow>
               (\<exists>e. checkFlags F (buildFlags info) = Inl e))"
  shows "\<not> ninja_invoked (runBuild env args)"
    and "targets info \<noteq> [] \<Longrightarrow> is_fatal (runBuild env args)"
  using assms(2)
  unfolding runBuild_prepared [OF assms(1)]
  by (auto simp: ninja_invoked_def is_fatal_def no_ninja_listing split: sum.splits)

lemma no_target_arguments:
  assumes "\<forall>a\<in>set args. CHR ''='' \<in> set a" and "prepareGenerator env args = Inr info"
  shows "targets info = []"
proof -
  have "filter (\<lambda>a. \<not> strings_Contains a ''='') args = []"
    using assms(1) by (simp add: strings_Contains_char filter_empty_conv)
  then show ?thesis
    using prepareGenerator_fields(2) [OF assms(2)] by simp
qed

lemma runBuild_lists:
  assumes "prepareGenerator env args = Inr info" and "targets info = []"
    and "snd (getAvailableTargets env info) = Inr A"
    and "snd (getAvailableFlags env info) = Inr F"
  shows "runBuild env args =
           ([Exec (buildFilesDir info) ''go'' (cmdArgs info ''targets''),
             Exec (buildFilesDir info) ''go'' (cmdArgs info ''flags''),
             Print ([CHR 0x0A] @ ''Available targets:'' @ [CHR 0x0A])]
              @ map (\<lambda>t. Print (''  //'' @ t @ [CHR 0x0A])) (rangeOrder env A)
              @ [Print ([CHR 0x0A] @ ''Available flags:'' @ [CHR 0x0A])]
              @ map (\<lambda>f. Print (''  '' @ f @ ''='' @ [CHR 0x0A])) (rangeOrder env F),
            Inr ())"
  unfolding runBuild_prepared [OF assms(1)]
  using assms(2-4) by (simp add: fst_getAvailable printAvailable_eq)

lemma runBuild_v1_runs_ninja:
  "\<not> is_fatal (buildCmd_v1 env args) \<Longrightarrow> ninja_invoked (buildCmd_v1 env args)"
  by (auto simp: buildCmd_v1_def runBuild_v1_def Let_def is_fatal_def ninja_invoked_def
      log_Fatal_def lift_def andThen_def generateNinjaFile_v1_def runNinja_v1_def exec_Run_def
      ret_def split: sum.splits if_splits prod.splits)

subsection \<open>Invocations without a target label\<close>

lemma Split_targets:
  "strings_Split (''mod/a/x'' @ [CHR 0x0A] @ ''mod/ab/y'' @ [CHR 0x0A]) (CHR 0x0A)
     = [''mod/a/x'', ''mod/ab/y'', []]"
  by simp

lemma Split_flags: "strings_Split (''opt'' @ [CHR 0x0A]) (CHR 0x0A) = [''opt'', []]"
  by simp

lemma exampleEnv_available:
  "snd (getAvailableTargets exampleEnv info) = Inr {''mod/a/x'', ''mod/ab/y''}"
  "snd (getAvailableFlags exampleEnv info) = Inr {''opt''}"
proof -
  have t: "Run exampleEnv d ''go'' (cmdArgs info ''targets'')
             = Inr (''mod/a/x'' @ [CHR 0x0A] @ ''mod/ab/y'' @ [CHR 0x0A])" for d
    by (simp add: exampleEnv_def cmdArgs_def)
  have f: "Run exampleEnv d ''go'' (cmdArgs info ''flags'') = Inr (''opt'' @ [CHR 0x0A])" for d
    by (simp add: exampleEnv_def cmdArgs_def)
  show "snd (getAvailableTargets exampleEnv info) = Inr {''mod/a/x'', ''mod/ab/y''}"
    unfolding getAvailableTargets_def getAvailable_eq t Split_targets by auto
  show "snd (getAvailableFlags exampleEnv info) = Inr {''opt''}"
    unfolding getAvailableFlags_def getAvailable_eq f Split_flags by auto
qed

lemma stage_v1_exampleEnv:
  "copyModules_v1 exampleEnv d (GetAllModulePaths exampleEnv r) []
     = Inr [''import _ '' @ [CHR 0x22] @ ''mod/a'' @ [CHR 0x22]]"
proof -
  have a: "strings_TrimSuffix (path_Dir (strings_TrimPrefix ''/ws/mod/a/BUILD.go'' ''/ws/mod/'')) ''/''
           = ''a''"
    by code_simp
  show ?thesis
    by (simp add: exampleEnv_def copyBuildAndRuleFiles_v1_def parseBuildFile_def Let_def a)
qed

lemma Join_ws_DEPS: "path_Join [''/ws'', ''DEPS''] = ''/ws/DEPS''"
  using Join_wd_element [of "[''ws'']" "''DEPS''"] by (simp add: element_def)

lemma exampleEnv_v1_build:
  "snd (buildCmd_v1 exampleEnv [''--release'']) = Inr ()"
  "ninja_invoked (buildCmd_v1 exampleEnv [''--release''])"
proof -
  have g: "Run exampleEnv d ''go'' (''run'' # m # ''/ws/DEPS'' # rest) = Inr ''rule cc''"
    for d m rest
    by (simp add: exampleEnv_def)
  have n: "Run exampleEnv d ''ninja'' a = Inr []" for d a
    by (simp add: exampleEnv_def)
  have w: "GetWorkspaceRoot exampleEnv = ''/ws''" "DepsDirName exampleEnv = ''DEPS''"
    "Verbose exampleEnv = False"
    by (simp_all add: exampleEnv_def)
  have s: "splitArgs_v1 exampleEnv [''--release''] ([], []) = ([], [''--release''])"
    by (simp add: strings_HasPrefix_def)
  have r: "runBuild_v1 exampleEnv [''--release''] =
             ([Exec (path_Join [''/ws'', buildDirName, buildConfigName [''--release''],
                                buildFilesDirName])
                 ''go''
                 ([''run'', mainFileName, ''/ws/DEPS'',
                   path_Join [''/ws'', buildDirName, buildConfigName [''--release''],
                              outputDirName]]
                  @ sort_Strings [''--release'']),
               Exec (path_Join [''/ws'', buildDirName, buildConfigName [''--release''],
                                outputDirName])
                 ''ninja'' []],
              Inr ())"
    unfolding runBuild_v1_def Let_def w s stage_v1_exampleEnv Join_ws_DEPS
    by (simp add: andThen_lift andThen_simps generateNinjaFile_v1_def runNinja_v1_def
        exec_Run_def g n w ret_def)
  show "snd (buildCmd_v1 exampleEnv [''--release'']) = Inr ()"
    by (simp add: buildCmd_v1_def r)
  show "ninja_invoked (buildCmd_v1 exampleEnv [''--release''])"
    by (simp add: buildCmd_v1_def r ninja_invoked_def)
qed

lemma checkFlags_unknown:
  "f \<in> set fs \<Longrightarrow> hd (strings_Split f CHR ''='') \<notin> F \<Longrightarrow>
   \<exists>n. n \<notin> F \<and> checkFlags F fs = Inl (FlagDoesNotExist n)"
  by (induction fs) (auto simp: Let_def)

lemma supplied_flag:
  assumes "prepareGenerator env args = Inr info" and "f \<in> set args" and "CHR ''='' \<in> set f"
  shows "f \<in> set (buildFlags info)"
  using assms prepareGenerator_fields(1) [OF assms(1)]
  by (simp add: sort_Strings_def strings_Contains_char)

lemma supplied_target:
  assumes "prepareGenerator env args = Inr info" and "t \<in> set args" and "CHR ''='' \<notin> set t"
  shows "targets info \<noteq> []"
  using assms prepareGenerator_fields(2) [OF assms(1)]
  by (auto simp: strings_Contains_char filter_empty_conv)

text \<open>C3, as the code has it. In the later revision an invocation without a target label
  never runs ninja, and when staging and the two queries of the generator succeed it runs
  the generator twice, prints the two lists and returns. The earlier revision has no such
  listing: whenever it ends without a fatal error it has run ninja.\<close>

theorem no_targets_lists_and_returns:
  assumes "\<forall>a\<in>set args. CHR ''='' \<in> set a"
  shows "\<not> ninja_invoked (runBuild env args)
       \<and> (prepareGenerator env args = Inr info
            \<and> snd (getAvailableTargets env info) = Inr A
            \<and> snd (getAvailableFlags env info) = Inr F \<longrightarrow>
          runBuild env args =
            ([Exec (buildFilesDir info) ''go'' (cmdArgs info ''targets''),
              Exec (buildFilesDir info) ''go'' (cmdArgs info ''flags''),
              Print ([CHR 0x0A] @ ''Available targets:'' @ [CHR 0x0A])]
               @ map (\<lambda>t. Print (''  //'' @ t @ [CHR 0x0A])) (rangeOrder env A)
               @ [Print ([CHR 0x0A] @ ''Available flags:'' @ [CHR 0x0A])]
               @ map (\<lambda>f. Print (''  '' @ f @ ''='' @ [CHR 0x0A])) (rangeOrder env F),
             Inr ()))
       \<and> (\<not> is_fatal (buildCmd_v1 env args') \<longrightarrow> ninja_invoked (buildCmd_v1 env args'))"
proof (intro conjI impI)
  show "\<not> ninja_invoked (runBuild env args)"
  proof (cases "prepareGenerator env args")
    case (Inl e)
    then show ?thesis
      by (simp add: runBuild_unprepared ninja_invoked_def)
  next
    case (Inr i)
    then show ?thesis
      using no_target_arguments [OF assms Inr] by (intro no_ninja_before_runNinja(1)) auto
  qed
next
  assume a: "prepareGenerator env args = Inr info
             \<and> snd (getAvailableTargets env info) = Inr A
             \<and> snd (getAvailableFlags env info) = Inr F"
  then have "targets info = []"
    using no_target_arguments [OF assms] by blast
  then show "runBuild env args =
            ([Exec (buildFilesDir info) ''go'' (cmdArgs info ''targets''),
              Exec (buildFilesDir info) ''go'' (cmdArgs info ''flags''),
              Print ([CHR 0x0A] @ ''Available targets:'' @ [CHR 0x0A])]
               @ map (\<lambda>t. Print (''  //'' @ t @ [CHR 0x0A])) (rangeOrder env A)
               @ [Print ([CHR 0x0A] @ ''Available flags:'' @ [CHR 0x0A])]
               @ map (\<lambda>f. Print (''  '' @ f @ ''='' @ [CHR 0x0A])) (rangeOrder env F),
             Inr ())"
    using a by (intro runBuild_lists) auto
next
  assume "\<not> is_fatal (buildCmd_v1 env args')"
  then show "ninja_invoked (buildCmd_v1 env args')"
    by (rule runBuild_v1_runs_ninja)
qed

theorem no_targets_lists_and_returns_witness:
  "CHR ''='' \<in> set ''opt=1''
   \<and> (\<exists>info. prepareGenerator exampleEnv [''opt=1''] = Inr info
         \<and> snd (getAvailableTargets exampleEnv info) = Inr {''mod/a/x'', ''mod/ab/y''}
         \<and> snd (getAvailableFlags exampleEnv info) = Inr {''opt''})
   \<and> \<not> ninja_invoked (runBuild exampleEnv [''opt=1''])
   \<and> snd (runBuild exampleEnv [''opt=1'']) = Inr ()
   \<and> snd (buildCmd_v1 exampleEnv [''--release'']) = Inr ()
   \<and> ninja_invoked (buildCmd_v1 exampleEnv [''--release''])"
proof -
  obtain info where p: "prepareGenerator exampleEnv [''opt=1''] = Inr info"
    using prepareGenerator_exampleEnv by blast
  have h: "\<forall>a\<in>set [''opt=1'']. CHR ''='' \<in> set a"
    by simp
  note th = no_targets_lists_and_returns
    [OF h, of exampleEnv info "{''mod/a/x'', ''mod/ab/y''}" "{''opt''}" "[''--release'']"]
  have c1: "\<not> ninja_invoked (runBuild exampleEnv [''opt=1''])"
    using th by blast
  have "snd (runBuild exampleEnv [''opt=1'']) = snd (x, Inr ())" if "runBuild exampleEnv [''opt=1''] = (x, Inr ())" for x
    using that by simp
  then have c2: "snd (runBuild exampleEnv [''opt=1'']) = Inr ()"
    using th p exampleEnv_available [of info] by auto
  show ?thesis
    using p c1 c2 exampleEnv_available [of info] exampleEnv_v1_build by auto
qed

text \<open>C3 as stated fails on the earlier revision: the arguments \<^verbatim>\<open>--release\<close> hold no
  target label, and ninja is run.\<close>

theorem no_targets_counterexample:
  "fst (splitArgs_v1 exampleEnv [''--release''] ([], [])) = []
   \<and> ninja_invoked (buildCmd_v1 exampleEnv [''--release''])"
  by (simp add: exampleEnv_v1_build strings_HasPrefix_def)

subsection \<open>Unknown flags and wildcards in a run\<close>

lemma exampleEnv_bad_flag: "hd (strings_Split ''bad=1'' CHR ''='') = ''bad''"
  by simp

lemma exampleEnv_resolve:
  "resolveTargets {''mod/a/x'', ''mod/ab/y''} [''mod/a/x''] {} = Inr {''mod/a/x''}"
  by (simp add: strings_HasSuffix_def suffix_def)

lemma exampleEnv_zzz: "normalizeTarget exampleEnv ''//zzz...'' = ''zzz...''"
  by (simp add: normalizeTarget_def strings_HasPrefix_def strings_TrimLeft_def)

lemma exampleEnv_no_zzz: "{t \<in> {''mod/a/x'', ''mod/ab/y''}. prefix ''zzz'' t} = {}"
  by auto

text \<open>C8: when a target label is supplied and some supplied flag has a name that the
  generator does not list, the invocation ends in a fatal error and ninja is not run. If
  the targets resolve, the fatal error is the one of the flag check.\<close>

theorem unknown_flag_is_fatal:
  assumes "t \<in> set args" and "CHR ''='' \<notin> set t"
    and "prepareGenerator env args = Inr info"
    and "snd (getAvailableFlags env info) = Inr F"
    and "f \<in> set args" and "CHR ''='' \<in> set f"
    and "hd (strings_Split f CHR ''='') \<notin> F"
  shows "is_fatal (runBuild env args) \<and> \<not> ninja_invoked (runBuild env args)
       \<and> (snd (getAvailableTargets env info) = Inr A
            \<and> resolveTargets A (targets info) {} = Inr U \<longrightarrow>
          (\<exists>n. n \<notin> F \<and> snd (runBuild env args) = Inl (FlagDoesNotExist n)))"
proof -
  have ts: "targets info \<noteq> []"
    using assms(3,1,2) by (rule supplied_target)
  have "f \<in> set (buildFlags info)"
    using assms(3,5,6) by (rule supplied_flag)
  then obtain n where n: "n \<notin> F" "checkFlags F (buildFlags info) = Inl (FlagDoesNotExist n)"
    using checkFlags_unknown assms(7) by blast
  have c: "\<forall>F'. snd (getAvailableFlags env info) = Inr F' \<longrightarrow>
             (\<exists>e. checkFlags F' (buildFlags info) = Inl e)"
    using assms(4) n(2) by simp
  have 1: "is_fatal (runBuild env args)"
    using c ts by (intro no_ninja_before_runNinja(2) [OF assms(3)]) auto
  have 2: "\<not> ninja_invoked (runBuild env args)"
    using c by (intro no_ninja_before_runNinja(1) [OF assms(3)]) auto
  have 3: "snd (runBuild env args) = Inl (FlagDoesNotExist n)"
    if "snd (getAvailableTargets env info) = Inr A" "resolveTargets A (targets info) {} = Inr U"
    unfolding runBuild_prepared [OF assms(3)] using that ts assms(4) n(2) by simp
  show ?thesis
    using 1 2 3 n(1) by blast
qed

theorem unknown_flag_is_fatal_witness:
  "CHR ''='' \<notin> set ''//mod/a/x'' \<and> CHR ''='' \<in> set ''bad=1''
   \<and> hd (strings_Split ''bad=1'' CHR ''='') \<notin> {''opt''}
   \<and> (\<exists>info. prepareGenerator exampleEnv [''//mod/a/x'', ''bad=1''] = Inr info
         \<and> snd (getAvailableFlags exampleEnv info) = Inr {''opt''}
         \<and> snd (getAvailableTargets exampleEnv info) = Inr {''mod/a/x'', ''mod/ab/y''}
         \<and> resolveTargets {''mod/a/x'', ''mod/ab/y''} (targets info) {} = Inr {''mod/a/x''})
   \<and> is_fatal (runBuild exampleEnv [''//mod/a/x'', ''bad=1''])
   \<and> \<not> ninja_invoked (runBuild exampleEnv [''//mod/a/x'', ''bad=1''])
   \<and> (\<exists>n. snd (runBuild exampleEnv [''//mod/a/x'', ''bad=1'']) = Inl (FlagDoesNotExist n))"
proof -
  obtain info where p: "prepareGenerator exampleEnv [''//mod/a/x'', ''bad=1''] = Inr info"
    using prepareGenerator_exampleEnv by blast
  have ts: "targets info = [''mod/a/x'']"
    using prepareGenerator_fields(2) [OF p] by (simp add: strings_Contains_char exampleEnv_label)
  have r: "resolveTargets {''mod/a/x'', ''mod/ab/y''} (targets info) {} = Inr {''mod/a/x''}"
    unfolding ts by (rule exampleEnv_resolve)
  have b: "hd (strings_Split ''bad=1'' CHR ''='') \<notin> {''opt''}"
    by simp
  note th = unknown_flag_is_fatal
    [of "''//mod/a/x''" "[''//mod/a/x'', ''bad=1'']" exampleEnv info "{''opt''}" "''bad=1''"
        "{''mod/a/x'', ''mod/ab/y''}" "{''mod/a/x''}", OF _ _ p exampleEnv_available(2) _ _ b]
  have c: "is_fatal (runBuild exampleEnv [''//mod/a/x'', ''bad=1''])
           \<and> \<not> ninja_invoked (runBuild exampleEnv [''//mod/a/x'', ''bad=1''])
           \<and> (\<exists>n. snd (runBuild exampleEnv [''//mod/a/x'', ''bad=1'']) = Inl (FlagDoesNotExist n))"
    using th r exampleEnv_available(1) [of info] by auto
  show ?thesis
    using p r c exampleEnv_available [of info] by auto
qed

text \<open>C9: without a target label the flags are not checked. Even when the check of the
  supplied flags against the listed names would refuse one of them, the later revision
  prints the two lists and returns without error.\<close>

theorem no_targets_skips_flag_check:
  assumes "\<forall>a\<in>set args. CHR ''='' \<in> set a"
    and "prepareGenerator env args = Inr info"
    and "snd (getAvailableTargets env info) = Inr A"
    and "snd (getAvailableFlags env info) = Inr F"
    and "f \<in> set args" and "hd (strings_Split f CHR ''='') \<notin> F"
  shows "(\<exists>n. n \<notin> F \<and> checkFlags F (buildFlags info) = Inl (FlagDoesNotExist n))
       \<and> snd (runBuild env args) = Inr ()
       \<and> fst (runBuild env args) =
           [Exec (buildFilesDir info) ''go'' (cmdArgs info ''targets''),
            Exec (buildFilesDir info) ''go'' (cmdArgs info ''flags''),
            Print ([CHR 0x0A] @ ''Available targets:'' @ [CHR 0x0A])]
             @ map (\<lambda>t. Print (''  //'' @ t @ [CHR 0x0A])) (rangeOrder env A)
             @ [Print ([CHR 0x0A] @ ''Available flags:'' @ [CHR 0x0A])]
             @ map (\<lambda>f. Print (''  '' @ f @ ''='' @ [CHR 0x0A])) (rangeOrder env F)"
proof -
  have "CHR ''='' \<in> set f"
    using assms(1,5) by blast
  then have "f \<in> set (buildFlags info)"
    using assms(2,5) by (intro supplied_flag)
  then have 1: "\<exists>n. n \<notin> F \<and> checkFlags F (buildFlags info) = Inl (FlagDoesNotExist n)"
    using checkFlags_unknown assms(6) by blast
  have ts: "targets info = []"
    using assms(1,2) by (rule no_target_arguments)
  show ?thesis
    unfolding runBuild_lists [OF assms(2) ts assms(3,4)] using 1 by simp
qed

theorem no_targets_skips_flag_check_witness:
  "CHR ''='' \<in> set ''bad=1''
   \<and> hd (strings_Split ''bad=1'' CHR ''='') \<notin> {''opt''}
   \<and> (\<exists>info. prepareGenerator exampleEnv [''bad=1''] = Inr info
         \<and> snd (getAvailableTargets exampleEnv info) = Inr {''mod/a/x'', ''mod/ab/y''}
         \<and> snd (getAvailableFlags exampleEnv info) = Inr {''opt''}
         \<and> (\<exists>n. checkFlags {''opt''} (buildFlags info) = Inl (FlagDoesNotExist n)))
   \<and> snd (runBuild exampleEnv [''bad=1'']) = Inr ()"
proof -
  obtain info where p: "prepareGenerator exampleEnv [''bad=1''] = Inr info"
    using prepareGenerator_exampleEnv by blast
  have h: "\<forall>a\<in>set [''bad=1'']. CHR ''='' \<in> set a"
    by simp
  have b: "hd (strings_Split ''bad=1'' CHR ''='') \<notin> {''opt''}"
    by simp
  note th = no_targets_skips_flag_check
    [OF h p exampleEnv_available(1) exampleEnv_available(2) _ b]
  have c: "(\<exists>n. checkFlags {''opt''} (buildFlags info) = Inl (FlagDoesNotExist n))
           \<and> snd (runBuild exampleEnv [''bad=1'']) = Inr ()"
    using th by auto
  show ?thesis
    using p c exampleEnv_available [of info] by auto
qed

lemma exampleEnv_mod_a: "normalizeTarget exampleEnv ''//mod/a...'' = ''mod/a...''"
  by (simp add: normalizeTarget_def strings_HasPrefix_def strings_TrimLeft_def)

lemma exampleEnv_join_rel:
  "path_Join [''/ws/mod/a/b'', ''mod/a...''] = ''/ws/mod/a/b/mod/a...''"
  by code_simp

lemma exampleEnv_rel: "normalizeTarget exampleEnv ''mod/a...'' = ''mod/a/b/mod/a...''"
proof -
  have l: "strings_TrimLeft
             (strings_TrimPrefix ''/ws/mod/a/b/mod/a...'' (path_Dir ''/ws/mod'')) ''/''
           = ''mod/a/b/mod/a...''"
    using label_of_path [of "[''ws'']" "''mod''" "''/a/b/mod/a...''"]
    by (simp add: element_def)
  show ?thesis
    unfolding normalizeTarget_def
    by (simp add: exampleEnv_def strings_HasPrefix_def strings_HasSuffix_def suffix_def
        exampleEnv_join_rel l Let_def)
qed

lemma runNinja_exampleEnv:
  "snd (runNinja exampleEnv info) = Inr ()"
  "filter is_ninja (fst (runNinja exampleEnv info)) \<noteq> []"
proof -
  have g: "Run exampleEnv d ''go'' (cmdArgs info ''ninja'') = Inr ''rule cc''" for d
    by (simp add: exampleEnv_def cmdArgs_def)
  have n: "Run exampleEnv d ''ninja'' a = Inr []" for d a
    by (simp add: exampleEnv_def)
  have v: "Verbose exampleEnv = False"
    by (simp add: exampleEnv_def)
  show "snd (runNinja exampleEnv info) = Inr ()"
    by (simp add: runNinja_def runGenerator_def exec_Run_def andThen_simps g n v ret_def Let_def)
  show "filter is_ninja (fst (runNinja exampleEnv info)) \<noteq> []"
    by (simp add: runNinja_def runGenerator_def exec_Run_def andThen_simps g n v ret_def Let_def)
qed

lemma exampleEnv_mod_a_filter:
  "{t \<in> {''mod/a/x'', ''mod/ab/y''}. prefix ''mod/a'' t} = {''mod/a/x'', ''mod/ab/y''}"
  "{t \<in> {''mod/a/x'', ''mod/ab/y''}. prefix ''//mod/a'' t} = {}"
  "{t \<in> {''mod/a/x'', ''mod/ab/y''}. prefix ''mod/a/b/mod/a'' t} = {}"
  by auto

lemma exampleEnv_mod_a_resolve:
  "resolveTargets {''mod/a/x'', ''mod/ab/y''} [''mod/a...''] {}
     = Inr {''mod/a/x'', ''mod/ab/y''}"
  "resolveTargets {''mod/a/x'', ''mod/ab/y''} [''mod/a/b/mod/a...''] {}
     = Inl (NoTargetMatching ''mod/a/b/mod/a...'')"
proof -
  have e: "''mod/a...'' = ''mod/a'' @ ''...''"
    by simp
  show "resolveTargets {''mod/a/x'', ''mod/ab/y''} [''mod/a...''] {}
          = Inr {''mod/a/x'', ''mod/ab/y''}"
    unfolding e resolveTargets_wildcard exampleEnv_mod_a_filter by simp
  have e': "''mod/a/b/mod/a...'' = ''mod/a/b/mod/a'' @ ''...''"
    by simp
  show "resolveTargets {''mod/a/x'', ''mod/ab/y''} [''mod/a/b/mod/a...''] {}
          = Inl (NoTargetMatching ''mod/a/b/mod/a...'')"
    unfolding e' resolveTargets_wildcard exampleEnv_mod_a_filter by simp
qed

lemma exampleEnv_mod_a_run:
  "\<not> is_fatal (runBuild exampleEnv [''//mod/a...''])"
  "ninja_invoked (runBuild exampleEnv [''//mod/a...''])"
  "is_fatal (runBuild exampleEnv [''mod/a...''])"
proof -
  obtain info where p: "prepareGenerator exampleEnv [''//mod/a...''] = Inr info"
    using prepareGenerator_exampleEnv by blast
  have ts: "targets info = [''mod/a...'']"
    using prepareGenerator_fields(2) [OF p] by (simp add: strings_Contains_char exampleEnv_mod_a)
  have fs: "buildFlags info = []"
    using prepareGenerator_fields(1) [OF p] by (simp add: strings_Contains_char sort_Strings_def)
  have r: "runBuild exampleEnv [''//mod/a...''] =
             (fst (getAvailableTargets exampleEnv info) @ fst (getAvailableFlags exampleEnv info)
                @ fst (runNinja exampleEnv
                        (info\<lparr>ninjaTargets :=
                           rangeOrder exampleEnv {''mod/a/x'', ''mod/ab/y''}\<rparr>)),
              snd (runNinja exampleEnv
                    (info\<lparr>ninjaTargets :=
                       rangeOrder exampleEnv {''mod/a/x'', ''mod/ab/y''}\<rparr>)))"
    unfolding runBuild_prepared [OF p] exampleEnv_available ts fs
    apply (simp only: sum.case list.distinct if_False)
    apply (unfold exampleEnv_mod_a_resolve)
    apply simp
    done
  show "\<not> is_fatal (runBuild exampleEnv [''//mod/a...''])"
    unfolding r by (simp add: is_fatal_def runNinja_exampleEnv)
  show "ninja_invoked (runBuild exampleEnv [''//mod/a...''])"
    unfolding r by (simp add: ninja_invoked_def runNinja_exampleEnv)
  obtain info' where p': "prepareGenerator exampleEnv [''mod/a...''] = Inr info'"
    using prepareGenerator_exampleEnv by blast
  have ts': "targets info' = [''mod/a/b/mod/a...'']"
    using prepareGenerator_fields(2) [OF p'] by (simp add: strings_Contains_char exampleEnv_rel)
  show "is_fatal (runBuild exampleEnv [''mod/a...''])"
    unfolding runBuild_prepared [OF p'] exampleEnv_available ts'
    apply (simp only: sum.case list.distinct if_False)
    apply (unfold exampleEnv_mod_a_resolve)
    apply (simp add: is_fatal_def)
    done
qed

text \<open>C2, as the code has it: the three dots are looked for in the label that
  \<^verbatim>\<open>normalizeTarget\<close> makes of a target argument, not in the argument itself. A label
  that ends in three dots selects exactly the available targets that have the rest of
  the label as a string prefix, and the loop fails when there is none; then the
  invocation ends in a fatal error and ninja is not run.\<close>

theorem wildcard_expansion:
  "resolveTargets A [p @ ''...''] {} =
     (if {t \<in> A. prefix p t} = {} then Inl (NoTargetMatching (p @ ''...''))
      else Inr {t \<in> A. prefix p t})
   \<and> resolveTargets A ((p @ ''...'') # rest) U =
     (if {t \<in> A. prefix p t} = {} then Inl (NoTargetMatching (p @ ''...''))
      else resolveTargets A rest (U \<union> {t \<in> A. prefix p t}))
   \<and> (prepareGenerator env args = Inr info
        \<and> snd (getAvailableTargets env info) = Inr A
        \<and> p @ ''...'' \<in> set (targets info)
        \<and> {t \<in> A. prefix p t} = {} \<longrightarrow>
      is_fatal (runBuild env args) \<and> \<not> ninja_invoked (runBuild env args))
   \<and> (prepareGenerator env args = Inr info
        \<and> a \<in> set args \<and> \<not> strings_Contains a ''='' \<longrightarrow>
      normalizeTarget env a \<in> set (targets info))"
proof (intro conjI impI)
  show "resolveTargets A [p @ ''...''] {} =
     (if {t \<in> A. prefix p t} = {} then Inl (NoTargetMatching (p @ ''...''))
      else Inr {t \<in> A. prefix p t})"
    unfolding resolveTargets_wildcard by simp
next
  show "resolveTargets A ((p @ ''...'') # rest) U =
     (if {t \<in> A. prefix p t} = {} then Inl (NoTargetMatching (p @ ''...''))
      else resolveTargets A rest (U \<union> {t \<in> A. prefix p t}))"
    by (rule resolveTargets_wildcard)
next
  assume a: "prepareGenerator env args = Inr info
        \<and> snd (getAvailableTargets env info) = Inr A
        \<and> p @ ''...'' \<in> set (targets info)
        \<and> {t \<in> A. prefix p t} = {}"
  then have ts: "targets info \<noteq> []"
    by auto
  have c: "\<forall>A'. snd (getAvailableTargets env info) = Inr A' \<longrightarrow>
             (\<exists>e. resolveTargets A' (targets info) {} = Inl e)"
    using a resolveTargets_unmatched by auto
  show "is_fatal (runBuild env args)"
    using a c ts by (intro no_ninja_before_runNinja(2) [of env args info]) auto
  show "\<not> ninja_invoked (runBuild env args)"
    using a c by (intro no_ninja_before_runNinja(1) [of env args info]) auto
next
  assume b: "prepareGenerator env args = Inr info
        \<and> a \<in> set args \<and> \<not> strings_Contains a ''=''"
  then show "normalizeTarget env a \<in> set (targets info)"
    using prepareGenerator_fields(2) [of env args info] by simp
qed

theorem wildcard_expansion_witness:
  "(\<exists>info. prepareGenerator exampleEnv [''//zzz...''] = Inr info
      \<and> snd (getAvailableTargets exampleEnv info) = Inr {''mod/a/x'', ''mod/ab/y''}
      \<and> ''zzz'' @ ''...'' \<in> set (targets info))
   \<and> \<not> strings_Contains ''//zzz...'' ''=''
   \<and> normalizeTarget exampleEnv ''//zzz...'' = ''zzz'' @ ''...''
   \<and> {t \<in> {''mod/a/x'', ''mod/ab/y''}. prefix ''zzz'' t} = {}
   \<and> is_fatal (runBuild exampleEnv [''//zzz...''])
   \<and> \<not> ninja_invoked (runBuild exampleEnv [''//zzz...''])"
proof -
  obtain info where p: "prepareGenerator exampleEnv [''//zzz...''] = Inr info"
    using prepareGenerator_exampleEnv by blast
  note th = wildcard_expansion [of "{''mod/a/x'', ''mod/ab/y''}" "''zzz''" "[]" "{}" exampleEnv
      "[''//zzz...'']" info "''//zzz...''"]
  have nf: "\<not> strings_Contains ''//zzz...'' ''=''"
    by (simp add: strings_Contains_char)
  have ts: "''zzz'' @ ''...'' \<in> set (targets info)"
    using th p nf exampleEnv_zzz by simp
  have c: "is_fatal (runBuild exampleEnv [''//zzz...''])
           \<and> \<not> ninja_invoked (runBuild exampleEnv [''//zzz...''])"
    using th p ts exampleEnv_available(1) [of info] exampleEnv_no_zzz
    by blast
  show ?thesis
    using p ts c nf exampleEnv_zzz exampleEnv_available(1) [of info] exampleEnv_no_zzz by auto
qed

text \<open>C2 as stated fails: with the available targets \<^verbatim>\<open>mod/a/x\<close> and \<^verbatim>\<open>mod/ab/y\<close>, no
  target has \<^verbatim>\<open>//mod/a\<close>, the argument \<^verbatim>\<open>//mod/a...\<close> without its dots, as a prefix, and
  the invocation selects both targets and runs ninja; both targets have \<^verbatim>\<open>mod/a\<close> as
  a prefix, and in the working directory \<^verbatim>\<open>/ws/mod/a/b\<close> the argument \<^verbatim>\<open>mod/a...\<close> is
  fatal, since its label is \<^verbatim>\<open>mod/a/b/mod/a...\<close>.\<close>

theorem wildcard_expansion_counterexample:
  "(\<exists>info. prepareGenerator exampleEnv [''//mod/a...''] = Inr info
      \<and> snd (getAvailableTargets exampleEnv info) = Inr {''mod/a/x'', ''mod/ab/y''})
   \<and> strings_HasSuffix ''//mod/a...'' ''...''
   \<and> {t \<in> {''mod/a/x'', ''mod/ab/y''}.
        prefix (strings_TrimSuffix ''//mod/a...'' ''...'') t} = {}
   \<and> resolveTargets {''mod/a/x'', ''mod/ab/y''} [normalizeTarget exampleEnv ''//mod/a...''] {}
       = Inr {''mod/a/x'', ''mod/ab/y''}
   \<and> \<not> is_fatal (runBuild exampleEnv [''//mod/a...''])
   \<and> ninja_invoked (runBuild exampleEnv [''//mod/a...''])
   \<and> (\<exists>info. prepareGenerator exampleEnv [''mod/a...''] = Inr info
      \<and> snd (getAvailableTargets exampleEnv info) = Inr {''mod/a/x'', ''mod/ab/y''})
   \<and> strings_HasSuffix ''mod/a...'' ''...''
   \<and> {t \<in> {''mod/a/x'', ''mod/ab/y''}.
        prefix (strings_TrimSuffix ''mod/a...'' ''...'') t} = {''mod/a/x'', ''mod/ab/y''}
   \<and> normalizeTarget exampleEnv ''mod/a...'' = ''mod/a/b/mod/a...''
   \<and> is_fatal (runBuild exampleEnv [''mod/a...''])"
proof -
  have d: "strings_TrimSuffix ''//mod/a...'' ''...'' = ''//mod/a''"
    "strings_TrimSuffix ''mod/a...'' ''...'' = ''mod/a''"
    using TrimSuffix_dots [of "''//mod/a''"] TrimSuffix_dots [of "''mod/a''"] by simp_all
  have h: "strings_HasSuffix ''//mod/a...'' ''...''" "strings_HasSuffix ''mod/a...'' ''...''"
    using HasSuffix_dots [of "''//mod/a''"] HasSuffix_dots [of "''mod/a''"] by simp_all
  have g: "\<exists>info. prepareGenerator exampleEnv args = Inr info
             \<and> snd (getAvailableTargets exampleEnv info) = Inr {''mod/a/x'', ''mod/ab/y''}"
    for args
    using prepareGenerator_exampleEnv [of args] exampleEnv_available(1) by blast
  show ?thesis
    unfolding d exampleEnv_mod_a exampleEnv_mod_a_filter
    using g h exampleEnv_mod_a_resolve(1) exampleEnv_mod_a_run exampleEnv_rel
    by simp
qed

end
